theory Spec2Isabelle
  imports
    Complex_Main
    "HOL-Library.Char_ord"
    "HOL-Library.List_Lexorder"
    "HOL-Library.Product_Lexorder"
    "HOL-Library.Sublist"
begin

section \<open>The data model of \<^verbatim>\<open>app.py\<close>\<close>

text \<open>
  \<^verbatim>\<open>df = pd.read_csv("diabetes_clean.csv")\<close> is a table with one line per patient.
  A line is a record of the ten columns the script reads. The text columns are strings,
  the 0/1 columns are integers (pandas reads them as \<^verbatim>\<open>int64\<close>), and the
  measurements are \<^verbatim>\<open>float64\<close> cells, each given by its real value. The file is the
  cleaned dataset: no cell is missing. A frame is the list of its lines, in index order;
  a column \<^verbatim>\<open>df["gender"]\<close> is \<open>map gender df\<close>.
\<close>

record row =
  gender :: string
  age :: real
  age_group :: string
  smoking_history :: string
  hypertension :: int
  heart_disease :: int
  bmi :: real
  HbA1c_level :: real
  blood_glucose_level :: real
  diabetes :: int

text \<open>
  The five \<^verbatim>\<open>st.sidebar.multiselect\<close> widgets each return the list of the options
  the user left selected.
\<close>

record sidebar =
  gender_filter :: "string list"
  age_group_filter :: "string list"
  smoking_filter :: "string list"
  heart_disease_filter :: "int list"
  hypertension_filter :: "int list"

section \<open>Filtering (lines 21 to 27)\<close>

text \<open>\<^verbatim>\<open>Series.isin(values)\<close>: one boolean per line, true where the cell is among the values.\<close>

definition isin :: "'a list \<Rightarrow> 'a list \<Rightarrow> bool list" where
  "isin series vals = map (\<lambda>v. v \<in> set vals) series"

text \<open>\<^verbatim>\<open>a & b\<close> on two boolean columns of the same frame: line by line.\<close>

definition series_and :: "bool list \<Rightarrow> bool list \<Rightarrow> bool list" where
  "series_and a b = map2 (\<and>) a b"

text \<open>
  \<^verbatim>\<open>df[mask]\<close> with a boolean column: a new frame holding copies of the lines whose
  mask is true, in the order of \<^verbatim>\<open>df\<close>.
\<close>

definition getitem_mask :: "'r list \<Rightarrow> bool list \<Rightarrow> 'r list" where
  "getitem_mask frame m = map fst (filter snd (zip frame m))"

definition filtered_df :: "row list \<Rightarrow> sidebar \<Rightarrow> row list" where
  "filtered_df df sel =
     getitem_mask df
       (series_and
         (series_and
           (series_and
             (series_and
               (isin (map gender df) (gender_filter sel))
               (isin (map age_group df) (age_group_filter sel)))
             (isin (map smoking_history df) (smoking_filter sel)))
           (isin (map heart_disease df) (heart_disease_filter sel)))
         (isin (map hypertension df) (hypertension_filter sel)))"

text \<open>The conjunction of the five membership tests, on one line of the table.\<close>

definition selected :: "sidebar \<Rightarrow> row \<Rightarrow> bool" where
  "selected sel r \<longleftrightarrow>
     gender r \<in> set (gender_filter sel) \<and>
     age_group r \<in> set (age_group_filter sel) \<and>
     smoking_history r \<in> set (smoking_filter sel) \<and>
     heart_disease r \<in> set (heart_disease_filter sel) \<and>
     hypertension r \<in> set (hypertension_filter sel)"

section \<open>The comorbidity column (lines 81 to 87)\<close>

text \<open>The filtered frame after \<^verbatim>\<open>filtered_df["comorbidity"] = ...\<close>: the ten columns and the new one.\<close>

record comorb_row = row +
  comorbidity :: string

text \<open>
  The two places of these lines where the libraries check a length and raise
  \<^verbatim>\<open>ValueError\<close>: \<^verbatim>\<open>np.select\<close> (as many choices as conditions, and at least
  one) and the column assignment (as many values as the frame has lines).
\<close>

datatype error = ValueError

text \<open>\<^verbatim>\<open>series == v\<close>: one boolean per line.\<close>

definition series_eq :: "'a list \<Rightarrow> 'a \<Rightarrow> bool list" where
  "series_eq series v = map (\<lambda>x. x = v) series"

definition conditions :: "row list \<Rightarrow> bool list list" where
  "conditions fd =
     [series_and (series_eq (map hypertension fd) 1) (series_eq (map heart_disease fd) 1),
      series_eq (map hypertension fd) 1,
      series_eq (map heart_disease fd) 1]"

definition choices :: "string list" where
  "choices = [''Both'', ''Hypertension Only'', ''Heart Disease Only'']"

text \<open>
  \<^verbatim>\<open>np.select(condlist, choicelist, default)\<close>: at each position the choice of the
  first condition that is true there, the default where none is.
\<close>

fun first_match :: "(bool list \<times> 'a) list \<Rightarrow> 'a \<Rightarrow> nat \<Rightarrow> 'a" where
  "first_match [] dflt i = dflt"
| "first_match ((cond, choice) # rest) dflt i =
     (if cond ! i then choice else first_match rest dflt i)"

definition np_select :: "bool list list \<Rightarrow> 'a list \<Rightarrow> 'a \<Rightarrow> error + 'a list" where
  "np_select condlist choicelist dflt =
     (if length condlist \<noteq> length choicelist then Inl ValueError
      else if condlist = [] then Inl ValueError
      else Inr (map (first_match (zip condlist choicelist) dflt)
                  [0..<length (hd condlist)]))"

text \<open>
  \<^verbatim>\<open>frame["comorbidity"] = values\<close> with an array: the values are placed by position,
  and pandas raises when their number is not the number of lines.
\<close>

definition setitem_comorbidity :: "row list \<Rightarrow> string list \<Rightarrow> error + comorb_row list" where
  "setitem_comorbidity frame vals =
     (if length vals \<noteq> length frame then Inl ValueError
      else Inr (map2 (\<lambda>r v. row.extend r (comorb_row.fields v)) frame vals))"

text \<open>
  The two global variables of the script. \<^verbatim>\<open>df[...]\<close> with a boolean mask built a new
  frame, so \<^verbatim>\<open>filtered_df\<close> shares no cell with \<^verbatim>\<open>df\<close>; the assignment of line 87
  changes the object bound to \<^verbatim>\<open>filtered_df\<close> and no other. (pandas may print a
  \<^verbatim>\<open>SettingWithCopyWarning\<close> at that line; a warning is not an exception, and the
  script goes on.)
\<close>

record 'r globals =
  g_df :: "row list"
  g_filtered_df :: "'r list"

definition assign_comorbidity :: "row globals \<Rightarrow> error + comorb_row globals" where
  "assign_comorbidity s =
     (case np_select (conditions (g_filtered_df s)) choices ''None'' of
        Inl e \<Rightarrow> Inl e
      | Inr labels \<Rightarrow>
          (case setitem_comorbidity (g_filtered_df s) labels of
             Inl e \<Rightarrow> Inl e
           | Inr fd \<Rightarrow> Inr \<lparr>g_df = g_df s, g_filtered_df = fd\<rparr>))"

text \<open>
  The labelling in the specification's words, for comparison with the code above: the
  first of the ordered tests that holds decides, and the label is \<open>''None''\<close> when none
  does.
\<close>

definition spec_label :: "'a row_scheme \<Rightarrow> string" where
  "spec_label r =
     (if hypertension r = 1 \<and> heart_disease r = 1 then ''Both''
      else if hypertension r = 1 then ''Hypertension Only''
      else if heart_disease r = 1 then ''Heart Disease Only''
      else ''None'')"

section \<open>Group means (lines 48, 55, 66, 88, 113, 128)\<close>

text \<open>
  \<^verbatim>\<open>Series.mean()\<close> of an integer column: the sum over the count, as a float (here
  the exact quotient); \<^verbatim>\<open>NaN\<close> (here \<open>None\<close>) for a column with no cell.
\<close>

definition mean :: "int list \<Rightarrow> real option" where
  "mean xs = (if xs = [] then None else Some (real_of_int (sum_list xs) / real (length xs)))"

text \<open>
  \<^verbatim>\<open>frame.groupby(key)[col].mean().reset_index()\<close>: one line per key that occurs in the
  frame, the keys in ascending order, with the mean of \<open>col\<close> over the lines of that key.
  With a list of two columns the key is the pair, ordered lexicographically.
\<close>

definition groupby_mean ::
  "('r \<Rightarrow> 'k::linorder) \<Rightarrow> ('r \<Rightarrow> int) \<Rightarrow> 'r list \<Rightarrow> ('k \<times> real option) list" where
  "groupby_mean key col frame =
     map (\<lambda>k. (k, mean (map col (filter (\<lambda>r. key r = k) frame))))
       (sort (remdups (map key frame)))"

definition age_group_chart :: "'a row_scheme list \<Rightarrow> (string \<times> real option) list" where
  "age_group_chart fd = groupby_mean age_group diabetes fd"

definition gender_chart :: "'a row_scheme list \<Rightarrow> (string \<times> real option) list" where
  "gender_chart fd = groupby_mean gender diabetes fd"

definition smoke_chart :: "'a row_scheme list \<Rightarrow> (string \<times> real option) list" where
  "smoke_chart fd = groupby_mean smoking_history diabetes fd"

definition comorb_chart :: "comorb_row list \<Rightarrow> (string \<times> real option) list" where
  "comorb_chart fd = groupby_mean comorbidity diabetes fd"

definition heatmap_data ::
  "'a row_scheme list \<Rightarrow> ((string \<times> string) \<times> real option) list" where
  "heatmap_data fd = groupby_mean (\<lambda>r. (gender r, age_group r)) diabetes fd"

definition heatmap_df ::
  "'a row_scheme list \<Rightarrow> ((string \<times> string) \<times> real option) list" where
  "heatmap_df fd = groupby_mean (\<lambda>r. (age_group r, smoking_history r)) diabetes fd"

section \<open>The correlation matrix (lines 120 and 121)\<close>

subsection \<open>float64 arithmetic\<close>

text \<open>
  \<^verbatim>\<open>DataFrame.corr()\<close> computes in IEEE 754 binary64. A value is a finite number (given
  by its real value), an infinity or \<^verbatim>\<open>NaN\<close>. The sign of a zero is not kept: the
  computation below never divides by a zero, which is the only place where it would show.
\<close>

datatype f64 = Fin real | PInf | NInf | NaN

text \<open>The nearest integer, a tie going to the even one.\<close>

definition round_even :: "real \<Rightarrow> int" where
  "round_even y = (let r = round y in if of_int r - y = 1 / 2 \<and> odd r then r - 1 else r)"

text \<open>
  The exponent of the unit in the last place of \<open>x\<close>: 53 significant bits, and no
  exponent below that of the subnormal numbers.
\<close>

definition ulp_exp :: "real \<Rightarrow> int" where
  "ulp_exp x = max (\<lfloor>log 2 \<bar>x\<bar>\<rfloor> - 52) (- 1074)"

text \<open>
  Rounding of an exact result to binary64, to nearest with ties to even; a result that
  rounds to \<open>2 ^ 1024\<close> or beyond in magnitude is an infinity.
\<close>

definition rnd :: "real \<Rightarrow> f64" where
  "rnd x =
     (if x = 0 then Fin 0
      else
        let u = 2 powi ulp_exp x;
            r = of_int (round_even (x / u)) * u
        in if 2 ^ 1024 \<le> r then PInf else if r \<le> - (2 ^ 1024) then NInf else Fin r)"

fun fneg :: "f64 \<Rightarrow> f64" where
  "fneg (Fin a) = Fin (- a)"
| "fneg PInf = NInf"
| "fneg NInf = PInf"
| "fneg NaN = NaN"

fun fadd :: "f64 \<Rightarrow> f64 \<Rightarrow> f64" where
  "fadd NaN _ = NaN"
| "fadd _ NaN = NaN"
| "fadd (Fin a) (Fin b) = rnd (a + b)"
| "fadd PInf NInf = NaN"
| "fadd NInf PInf = NaN"
| "fadd PInf _ = PInf"
| "fadd NInf _ = NInf"
| "fadd _ PInf = PInf"
| "fadd _ NInf = NInf"

definition fsub :: "f64 \<Rightarrow> f64 \<Rightarrow> f64" where
  "fsub a b = fadd a (fneg b)"

fun fmul :: "f64 \<Rightarrow> f64 \<Rightarrow> f64" where
  "fmul NaN _ = NaN"
| "fmul _ NaN = NaN"
| "fmul (Fin a) (Fin b) = rnd (a * b)"
| "fmul (Fin a) PInf = (if a = 0 then NaN else if 0 < a then PInf else NInf)"
| "fmul (Fin a) NInf = (if a = 0 then NaN else if 0 < a then NInf else PInf)"
| "fmul PInf (Fin b) = (if b = 0 then NaN else if 0 < b then PInf else NInf)"
| "fmul NInf (Fin b) = (if b = 0 then NaN else if 0 < b then NInf else PInf)"
| "fmul PInf PInf = PInf"
| "fmul NInf NInf = PInf"
| "fmul PInf NInf = NInf"
| "fmul NInf PInf = NInf"

fun fdiv :: "f64 \<Rightarrow> f64 \<Rightarrow> f64" where
  "fdiv NaN _ = NaN"
| "fdiv _ NaN = NaN"
| "fdiv (Fin a) (Fin b) =
     (if b = 0 then (if a = 0 then NaN else if 0 < a then PInf else NInf)
      else rnd (a / b))"
| "fdiv (Fin a) PInf = Fin 0"
| "fdiv (Fin a) NInf = Fin 0"
| "fdiv PInf (Fin b) = (if 0 \<le> b then PInf else NInf)"
| "fdiv NInf (Fin b) = (if 0 \<le> b then NInf else PInf)"
| "fdiv PInf PInf = NaN"
| "fdiv PInf NInf = NaN"
| "fdiv NInf PInf = NaN"
| "fdiv NInf NInf = NaN"

fun fsqrt :: "f64 \<Rightarrow> f64" where
  "fsqrt (Fin a) = (if a < 0 then NaN else rnd (sqrt a))"
| "fsqrt PInf = PInf"
| "fsqrt NInf = NaN"
| "fsqrt NaN = NaN"

text \<open>\<^verbatim>\<open>a < b\<close>: false as soon as one side is \<^verbatim>\<open>NaN\<close>.\<close>

fun flt :: "f64 \<Rightarrow> f64 \<Rightarrow> bool" where
  "flt NaN _ = False"
| "flt _ NaN = False"
| "flt (Fin a) (Fin b) = (a < b)"
| "flt NInf NInf = False"
| "flt NInf _ = True"
| "flt _ NInf = False"
| "flt PInf _ = False"
| "flt _ PInf = True"

text \<open>\<^verbatim>\<open>np.isfinite\<close>.\<close>

fun isfinite :: "f64 \<Rightarrow> bool" where
  "isfinite (Fin a) = True"
| "isfinite _ = False"

subsection \<open>The pass over a pair of columns\<close>

text \<open>
  \<^verbatim>\<open>DataFrame.corr()\<close> (Pearson, \<^verbatim>\<open>min_periods=1\<close>) runs, for each pair of columns
  \<open>xi\<close>, \<open>yi \<le> xi\<close>, one pass of Welford's method over the lines and stores the
  coefficient at both \<open>(xi, yi)\<close> and \<open>(yi, xi)\<close>. The running state of one pass:
\<close>

record welford =
  nobs :: nat
  meanx :: f64
  meany :: f64
  ssqdmx :: f64
  ssqdmy :: f64
  covxy :: f64

definition welford_init :: welford where
  "welford_init =
     \<lparr>nobs = 0, meanx = Fin 0, meany = Fin 0, ssqdmx = Fin 0, ssqdmy = Fin 0,
      covxy = Fin 0\<rparr>"

text \<open>
  One line of the loop; every operation rounds its result. \<^verbatim>\<open>1. / nobs * dx\<close> is the
  quotient \<^verbatim>\<open>1. / nobs\<close> times \<^verbatim>\<open>dx\<close>, with the count converted to float64.
\<close>

definition welford_step :: "welford \<Rightarrow> f64 \<times> f64 \<Rightarrow> welford" where
  "welford_step w v =
     (let vx = fst v; vy = snd v;
          n = nobs w + 1;
          dx = fsub vx (meanx w);
          dy = fsub vy (meany w);
          mx = fadd (meanx w) (fmul (fdiv (Fin 1) (rnd (real n))) dx);
          my = fadd (meany w) (fmul (fdiv (Fin 1) (rnd (real n))) dy)
      in \<lparr>nobs = n, meanx = mx, meany = my,
          ssqdmx = fadd (ssqdmx w) (fmul (fsub vx mx) dx),
          ssqdmy = fadd (ssqdmy w) (fmul (fsub vy my) dy),
          covxy = fadd (covxy w) (fmul (fsub vx mx) dy)\<rparr>)"

text \<open>The pass takes the lines on which both cells are finite.\<close>

definition welford_pass :: "f64 list \<Rightarrow> f64 list \<Rightarrow> welford" where
  "welford_pass xs ys =
     foldl welford_step welford_init
       (filter (\<lambda>v. isfinite (fst v) \<and> isfinite (snd v)) (zip xs ys))"

text \<open>
  The coefficient is clipped to the interval from -1 to 1; a \<^verbatim>\<open>NaN\<close> fails both
  comparisons and stays (here \<open>None\<close>).
\<close>

definition clip :: "f64 \<Rightarrow> real option" where
  "clip val =
     (if flt (Fin 1) val then Some 1
      else if flt val (Fin (- 1)) then Some (- 1)
      else (case val of Fin c \<Rightarrow> Some c | _ \<Rightarrow> None))"

text \<open>
  One entry: \<^verbatim>\<open>NaN\<close> (here \<open>None\<close>) when fewer lines than \<^verbatim>\<open>min_periods\<close> were
  seen or the divisor is zero.
\<close>

definition nancorr_pair :: "f64 list \<Rightarrow> f64 list \<Rightarrow> real option" where
  "nancorr_pair xs ys =
     (let w = welford_pass xs ys in
      if nobs w < 1 then None
      else
        let divisor = fsqrt (fmul (ssqdmx w) (ssqdmy w)) in
        if divisor \<noteq> Fin 0 then clip (fdiv (covxy w) divisor) else None)"

text \<open>
  The matrix, a list of lines: the entry at \<open>(a, b)\<close> was written by the pass with
  \<open>xi = max a b\<close> and \<open>yi = min a b\<close>.
\<close>

definition nancorr :: "f64 list list \<Rightarrow> real option list list" where
  "nancorr mat =
     map (\<lambda>a. map (\<lambda>b. nancorr_pair (mat ! max a b) (mat ! min a b)) [0..<length mat])
       [0..<length mat]"

definition numeric_cols :: "('a row_scheme \<Rightarrow> real) list" where
  "numeric_cols = [HbA1c_level, blood_glucose_level, bmi, age]"

text \<open>
  \<^verbatim>\<open>filtered_df[numeric_cols]\<close> as an array of float64, one list per column. A cell of
  the file is the float64 nearest to the number written there; a cell that is a float64
  already is unchanged.
\<close>

definition to_numpy :: "'a row_scheme list \<Rightarrow> f64 list list" where
  "to_numpy fd = map (\<lambda>c. map (\<lambda>r. rnd (c r)) fd) numeric_cols"

definition corr_matrix :: "'a row_scheme list \<Rightarrow> real option list list" where
  "corr_matrix fd = nancorr (to_numpy fd)"

text \<open>A column is constant when all its cells are equal; otherwise two of them differ.\<close>

definition non_constant :: "real list \<Rightarrow> bool" where
  "non_constant xs \<longleftrightarrow> (\<exists>x \<in> set xs. \<exists>y \<in> set xs. x \<noteq> y)"

text \<open>
  The state of a pass over a column paired with itself: the two running means agree, and
  so do the two sums of squares and the sum of products.
\<close>

definition same_pass :: "welford \<Rightarrow> bool" where
  "same_pass w \<longleftrightarrow> meanx w = meany w \<and> ssqdmx w = ssqdmy w \<and> ssqdmx w = covxy w"

section \<open>The script as a function of the table and the selections\<close>

text \<open>
  What each of the ten figures is drawn from. The box and violin plots (figures 4, 6
  and 7) take the filtered frame itself and read two of its columns.
\<close>

record page =
  fig1 :: "(string \<times> real option) list"
  fig2 :: "(string \<times> real option) list"
  fig3 :: "(string \<times> real option) list"
  fig4 :: "(int \<times> real) list"
  fig5 :: "(string \<times> real option) list"
  fig6 :: "(int \<times> real) list"
  fig7 :: "(int \<times> real) list"
  fig8 :: "((string \<times> string) \<times> real option) list"
  fig9 :: "real option list list"
  fig10 :: "((string \<times> string) \<times> real option) list"

definition app :: "row list \<Rightarrow> sidebar \<Rightarrow> error + comorb_row globals \<times> page" where
  "app df sel =
     (let s0 = \<lparr>g_df = df, g_filtered_df = filtered_df df sel\<rparr>;
          f1 = age_group_chart (g_filtered_df s0);
          f2 = gender_chart (g_filtered_df s0);
          f3 = smoke_chart (g_filtered_df s0);
          f4 = map (\<lambda>r. (diabetes r, HbA1c_level r)) (g_filtered_df s0)
      in case assign_comorbidity s0 of
           Inl e \<Rightarrow> Inl e
         | Inr s1 \<Rightarrow>
             Inr (s1,
               \<lparr>fig1 = f1, fig2 = f2, fig3 = f3, fig4 = f4,
                fig5 = comorb_chart (g_filtered_df s1),
                fig6 = map (\<lambda>r. (diabetes r, bmi r)) (g_filtered_df s1),
                fig7 = map (\<lambda>r. (diabetes r, blood_glucose_level r)) (g_filtered_df s1),
                fig8 = heatmap_data (g_filtered_df s1),
                fig9 = corr_matrix (g_filtered_df s1),
                fig10 = heatmap_df (g_filtered_df s1)\<rparr>))"

section \<open>A small table used to run the definitions\<close>

definition patient1 :: row where
  "patient1 = \<lparr>gender = ''Female'', age = 80, age_group = ''65+'',
     smoking_history = ''never'', hypertension = 1, heart_disease = 1, bmi = 25,
     HbA1c_level = 6, blood_glucose_level = 140, diabetes = 1\<rparr>"

definition patient2 :: row where
  "patient2 = \<lparr>gender = ''Male'', age = 54, age_group = ''50-65'',
     smoking_history = ''current'', hypertension = 1, heart_disease = 0, bmi = 27,
     HbA1c_level = 5, blood_glucose_level = 80, diabetes = 0\<rparr>"

definition patient3 :: row where
  "patient3 = \<lparr>gender = ''Female'', age = 28, age_group = ''18-35'',
     smoking_history = ''never'', hypertension = 0, heart_disease = 0, bmi = 23,
     HbA1c_level = 4, blood_glucose_level = 100, diabetes = 0\<rparr>"

definition sample_df :: "row list" where
  "sample_df = [patient1, patient2, patient3]"

definition select_all :: sidebar where
  "select_all = \<lparr>gender_filter = [''Female'', ''Male''],
     age_group_filter = [''65+'', ''50-65'', ''18-35''],
     smoking_filter = [''never'', ''current''],
     heart_disease_filter = [1, 0], hypertension_filter = [1, 0]\<rparr>"

definition select_female :: sidebar where
  "select_female = select_all\<lparr>gender_filter := [''Female'']\<rparr>"

definition select_no_gender :: sidebar where
  "select_no_gender = select_all\<lparr>gender_filter := []\<rparr>"

definition sample_globals :: "row globals" where
  "sample_globals = \<lparr>g_df = sample_df, g_filtered_df = sample_df\<rparr>"

definition sample_comorb_df :: "comorb_row list" where
  "sample_comorb_df =
     [row.extend patient1 (comorb_row.fields ''Both''),
      row.extend patient2 (comorb_row.fields ''Hypertension Only''),
      row.extend patient3 (comorb_row.fields ''None'')]"

text \<open>
  A table of two lines, and one whose \<open>bmi\<close> cells are 0 and \<open>2 ^ 600\<close> (a float64:
  about 4.15e180).
\<close>

definition pair_df :: "row list" where
  "pair_df = [patient1, patient2]"

definition huge :: real where
  "huge = 2 ^ 600"

definition huge_df :: "row list" where
  "huge_df = [patient1\<lparr>bmi := 0\<rparr>, patient2\<lparr>bmi := huge\<rparr>]"

section \<open>Properties of the filter\<close>

lemma getitem_mask_map: "getitem_mask frame (map p frame) = filter p frame"
  unfolding getitem_mask_def by (induction frame) auto

lemma isin_map: "isin (map f frame) vals = map (\<lambda>r. f r \<in> set vals) frame"
  by (simp add: isin_def)

lemma series_and_map:
  "series_and (map p frame) (map q frame) = map (\<lambda>r. p r \<and> q r) frame"
  unfolding series_and_def by (induction frame) auto

lemma filtered_df_filter: "filtered_df df sel = filter (selected sel) df"
proof -
  have "filtered_df df sel = getitem_mask df (map (selected sel) df)"
    unfolding filtered_df_def isin_map series_and_map selected_def
    by simp
  then show ?thesis
    by (simp add: getitem_mask_map)
qed

lemma sample_df_female: "filtered_df sample_df select_female = [patient1, patient3]"
  by (simp add: filtered_df_filter selected_def sample_df_def select_female_def
      select_all_def patient1_def patient2_def patient3_def)

lemma sample_df_no_gender: "filtered_df sample_df select_no_gender = []"
  by (simp add: filtered_df_filter selected_def sample_df_def select_no_gender_def
      select_all_def)

text \<open>
  Claim C1. The filter returns exactly the lines of the table whose value in each of the
  five filtered columns is among the values selected for that column: every returned
  line passes the five membership tests, every line of the table that passes them is
  returned, and it is returned as many times as it stands in the table.
\<close>

theorem filtered_df_sound_complete:
  "(\<forall>r \<in> set (filtered_df df sel).
      gender r \<in> set (gender_filter sel) \<and>
      age_group r \<in> set (age_group_filter sel) \<and>
      smoking_history r \<in> set (smoking_filter sel) \<and>
      heart_disease r \<in> set (heart_disease_filter sel) \<and>
      hypertension r \<in> set (hypertension_filter sel)) \<and>
   (\<forall>r \<in> set df.
      gender r \<in> set (gender_filter sel) \<and>
      age_group r \<in> set (age_group_filter sel) \<and>
      smoking_history r \<in> set (smoking_filter sel) \<and>
      heart_disease r \<in> set (heart_disease_filter sel) \<and>
      hypertension r \<in> set (hypertension_filter sel) \<longrightarrow>
      r \<in> set (filtered_df df sel) \<and>
      count_list (filtered_df df sel) r = count_list df r)"
proof -
  have "count_list (filter (selected sel) df) r = count_list df r"
    if "selected sel r" for r
    using that by (induction df) auto
  then show ?thesis
    unfolding filtered_df_filter by (auto simp: selected_def)
qed

theorem filtered_df_sound_complete_witness:
  "patient1 \<in> set (filtered_df sample_df select_female) \<and>
   gender patient1 \<in> set (gender_filter select_female) \<and>
   age_group patient1 \<in> set (age_group_filter select_female) \<and>
   smoking_history patient1 \<in> set (smoking_filter select_female) \<and>
   heart_disease patient1 \<in> set (heart_disease_filter select_female) \<and>
   hypertension patient1 \<in> set (hypertension_filter select_female) \<and>
   patient3 \<in> set sample_df \<and>
   count_list (filtered_df sample_df select_female) patient3 = count_list sample_df patient3 \<and>
   patient2 \<notin> set (filtered_df sample_df select_female)"
proof -
  have in1: "patient1 \<in> set (filtered_df sample_df select_female)"
    by (simp add: sample_df_female)
  have in3: "patient3 \<in> set sample_df"
    by (simp add: sample_df_def)
  have out2: "patient2 \<notin> set (filtered_df sample_df select_female)"
    by (simp add: sample_df_female patient1_def patient2_def patient3_def)
  have sel3: "gender patient3 \<in> set (gender_filter select_female) \<and>
      age_group patient3 \<in> set (age_group_filter select_female) \<and>
      smoking_history patient3 \<in> set (smoking_filter select_female) \<and>
      heart_disease patient3 \<in> set (heart_disease_filter select_female) \<and>
      hypertension patient3 \<in> set (hypertension_filter select_female)"
    by (simp add: select_female_def select_all_def patient3_def)
  from filtered_df_sound_complete [of sample_df select_female] in1 in3 sel3 out2
  show ?thesis by blast
qed

text \<open>
  Claim C4. When the selection of at least one of the five columns is empty, the filter
  returns the empty frame. The filter is a total function: the empty frame is its
  ordinary result, there is no error value it could return instead.
\<close>

theorem filtered_df_empty_selection:
  "gender_filter sel = [] \<or> age_group_filter sel = [] \<or> smoking_filter sel = [] \<or>
   heart_disease_filter sel = [] \<or> hypertension_filter sel = []
   \<Longrightarrow> filtered_df df sel = []"
  unfolding filtered_df_filter by (auto simp: selected_def filter_empty_conv)

theorem filtered_df_empty_selection_witness:
  "gender_filter select_no_gender = [] \<and> sample_df \<noteq> [] \<and>
   filtered_df sample_df select_no_gender = []"
proof -
  have g: "gender_filter select_no_gender = []"
    by (simp add: select_no_gender_def)
  have "filtered_df sample_df select_no_gender = []"
    by (rule filtered_df_empty_selection) (simp add: g)
  with g show ?thesis
    by (simp add: sample_df_def)
qed

text \<open>
  Claim C9. The filter keeps the order of the table: the filtered frame is a
  subsequence of the table, the surviving lines standing in the order they have there.
\<close>

theorem filtered_df_subseq: "subseq (filtered_df df sel) df"
  unfolding filtered_df_filter by simp

theorem filtered_df_subseq_witness:
  "subseq [patient1, patient3] sample_df"
  using filtered_df_subseq [of sample_df select_female]
  by (simp only: sample_df_female)

section \<open>Properties of the comorbidity column\<close>

lemma first_match_conditions:
  "i < length fd \<Longrightarrow>
   first_match (zip (conditions fd) choices) ''None'' i = spec_label (fd ! i)"
  by (simp add: conditions_def choices_def series_and_def series_eq_def spec_label_def)

lemma np_select_conditions:
  "np_select (conditions fd) choices ''None'' = Inr (map spec_label fd)"
proof -
  have "map (first_match (zip (conditions fd) choices) ''None'') [0..<length fd]
      = map (\<lambda>i. spec_label (fd ! i)) [0..<length fd]"
    by (simp add: first_match_conditions)
  also have "\<dots> = map spec_label fd"
    by (rule nth_equalityI) simp_all
  finally have m: "map (first_match (zip (conditions fd) choices) ''None'') [0..<length fd]
      = map spec_label fd" .
  have l: "length (hd (conditions fd)) = length fd"
    by (simp add: conditions_def series_and_def series_eq_def)
  show ?thesis
    unfolding np_select_def l m by (simp add: conditions_def choices_def)
qed

lemma setitem_comorbidity_map:
  "setitem_comorbidity fd (map f fd) = Inr (map (\<lambda>r. row.extend r (comorb_row.fields (f r))) fd)"
  unfolding setitem_comorbidity_def by (induction fd) auto

lemma truncate_extend: "row.truncate (row.extend r m) = r"
  by (cases r) (simp add: row.defs)

lemma columns_extend:
  "gender (row.extend r m) = gender r"
  "age (row.extend r m) = age r"
  "age_group (row.extend r m) = age_group r"
  "smoking_history (row.extend r m) = smoking_history r"
  "hypertension (row.extend r m) = hypertension r"
  "heart_disease (row.extend r m) = heart_disease r"
  "bmi (row.extend r m) = bmi r"
  "HbA1c_level (row.extend r m) = HbA1c_level r"
  "blood_glucose_level (row.extend r m) = blood_glucose_level r"
  "diabetes (row.extend r m) = diabetes r"
  by (simp_all add: row.defs)

lemma comorbidity_extend: "comorbidity (row.extend r (comorb_row.fields v)) = v"
  by (simp add: row.defs comorb_row.defs)

lemma assign_comorbidity_eq:
  "assign_comorbidity s =
     Inr \<lparr>g_df = g_df s,
          g_filtered_df =
            map (\<lambda>r. row.extend r (comorb_row.fields (spec_label r))) (g_filtered_df s)\<rparr>"
  by (simp add: assign_comorbidity_def np_select_conditions setitem_comorbidity_map)

lemma sample_globals_pairs:
  "map (\<lambda>r. (hypertension r, heart_disease r)) (g_filtered_df sample_globals)
     = [(1, 1), (1, 0), (0, 0)]"
  by (simp add: sample_globals_def sample_df_def patient1_def patient2_def patient3_def)

text \<open>
  Claim C2. The comorbidity labelling is total and its cases exclude each other: for
  every filtered frame lines 81 to 87 succeed and give each line exactly one of the four
  labels, the one of the first test that holds among (hypertension = 1 and
  heart_disease = 1), (hypertension = 1), (heart_disease = 1), and \<open>''None''\<close> when none
  holds. The four labels are different strings, and a line with both conditions equal
  to 1 is labelled \<open>''Both''\<close>, never with one of the single-condition labels.
\<close>

theorem comorbidity_first_match:
  "\<exists>s'. assign_comorbidity s = Inr s' \<and>
     length (g_filtered_df s') = length (g_filtered_df s) \<and>
     (\<forall>i < length (g_filtered_df s).
        comorbidity (g_filtered_df s' ! i) =
          (if hypertension (g_filtered_df s ! i) = 1 \<and> heart_disease (g_filtered_df s ! i) = 1
           then ''Both''
           else if hypertension (g_filtered_df s ! i) = 1 then ''Hypertension Only''
           else if heart_disease (g_filtered_df s ! i) = 1 then ''Heart Disease Only''
           else ''None'') \<and>
        comorbidity (g_filtered_df s' ! i) \<in>
          {''Both'', ''Hypertension Only'', ''Heart Disease Only'', ''None''} \<and>
        (hypertension (g_filtered_df s ! i) = 1 \<and> heart_disease (g_filtered_df s ! i) = 1 \<longrightarrow>
           comorbidity (g_filtered_df s' ! i) = ''Both'' \<and>
           comorbidity (g_filtered_df s' ! i) \<noteq> ''Hypertension Only'' \<and>
           comorbidity (g_filtered_df s' ! i) \<noteq> ''Heart Disease Only'')) \<and>
     distinct [''Both'', ''Hypertension Only'', ''Heart Disease Only'', ''None'']"
  unfolding assign_comorbidity_eq
  by (simp add: spec_label_def comorbidity_extend)

theorem comorbidity_first_match_witness:
  "(0::nat) < length (g_filtered_df sample_globals) \<and>
   hypertension (g_filtered_df sample_globals ! 0) = 1 \<and>
   heart_disease (g_filtered_df sample_globals ! 0) = 1 \<and>
   (\<exists>s'. assign_comorbidity sample_globals = Inr s' \<and>
      comorbidity (g_filtered_df s' ! 0) = ''Both'')"
proof -
  have h: "(0::nat) < length (g_filtered_df sample_globals) \<and>
      hypertension (g_filtered_df sample_globals ! 0) = 1 \<and>
      heart_disease (g_filtered_df sample_globals ! 0) = 1"
    by (simp add: sample_globals_def sample_df_def patient1_def)
  from comorbidity_first_match [of sample_globals] h show ?thesis
    by blast
qed

text \<open>
  Claim C8. On three lines whose (hypertension, heart_disease) are (1,1), (1,0), (0,0)
  in that order, the labels are \<open>''Both''\<close>, \<open>''Hypertension Only''\<close>, \<open>''None''\<close> in that
  order.
\<close>

theorem comorbidity_scenario:
  "map (\<lambda>r. (hypertension r, heart_disease r)) (g_filtered_df s) = [(1, 1), (1, 0), (0, 0)]
   \<Longrightarrow> \<exists>s'. assign_comorbidity s = Inr s' \<and>
         map comorbidity (g_filtered_df s') = [''Both'', ''Hypertension Only'', ''None'']"
proof -
  assume m: "map (\<lambda>r. (hypertension r, heart_disease r)) (g_filtered_df s)
      = [(1, 1), (1, 0), (0, 0)]"
  then obtain a b c where fd: "g_filtered_df s = [a, b, c]"
    by (auto simp: map_eq_Cons_conv)
  from m have "spec_label a = ''Both''" "spec_label b = ''Hypertension Only''"
      "spec_label c = ''None''"
    unfolding fd by (simp_all add: spec_label_def)
  then show ?thesis
    unfolding assign_comorbidity_eq fd by (simp add: comorbidity_extend)
qed

theorem comorbidity_scenario_witness:
  "map (\<lambda>r. (hypertension r, heart_disease r)) (g_filtered_df sample_globals)
     = [(1, 1), (1, 0), (0, 0)] \<and>
   (\<exists>s'. assign_comorbidity sample_globals = Inr s' \<and>
      map comorbidity (g_filtered_df s') = [''Both'', ''Hypertension Only'', ''None''])"
  using comorbidity_scenario [OF sample_globals_pairs] sample_globals_pairs
  by blast

text \<open>
  Claim C10. Computing the comorbidity column adds that one column to the filtered frame
  and changes nothing else: the ten columns read from the file keep their values on
  every line, the number and the order of the lines are the same, and the full table
  \<^verbatim>\<open>df\<close> is the same. (The frame after the assignment has the record type of the ten
  columns extended by the single field \<open>comorbidity\<close>.)
\<close>

theorem assign_comorbidity_frame:
  "\<exists>s'. assign_comorbidity s = Inr s' \<and>
     g_df s' = g_df s \<and>
     length (g_filtered_df s') = length (g_filtered_df s) \<and>
     map row.truncate (g_filtered_df s') = g_filtered_df s \<and>
     map gender (g_filtered_df s') = map gender (g_filtered_df s) \<and>
     map age (g_filtered_df s') = map age (g_filtered_df s) \<and>
     map age_group (g_filtered_df s') = map age_group (g_filtered_df s) \<and>
     map smoking_history (g_filtered_df s') = map smoking_history (g_filtered_df s) \<and>
     map hypertension (g_filtered_df s') = map hypertension (g_filtered_df s) \<and>
     map heart_disease (g_filtered_df s') = map heart_disease (g_filtered_df s) \<and>
     map bmi (g_filtered_df s') = map bmi (g_filtered_df s) \<and>
     map HbA1c_level (g_filtered_df s') = map HbA1c_level (g_filtered_df s) \<and>
     map blood_glucose_level (g_filtered_df s') = map blood_glucose_level (g_filtered_df s) \<and>
     map diabetes (g_filtered_df s') = map diabetes (g_filtered_df s)"
  unfolding assign_comorbidity_eq
  by (simp add: comp_def truncate_extend columns_extend)

theorem assign_comorbidity_frame_witness:
  "\<exists>s'. assign_comorbidity sample_globals = Inr s' \<and>
     g_df s' = sample_df \<and>
     map row.truncate (g_filtered_df s') = [patient1, patient2, patient3]"
  using assign_comorbidity_frame [of sample_globals]
  by (auto simp: sample_globals_def sample_df_def)

section \<open>Properties of the group means\<close>

lemma groupby_mean_keys:
  "map fst (groupby_mean key col frame) = sort (remdups (map key frame))"
  by (simp add: groupby_mean_def comp_def)

lemma count_list_distinct:
  "distinct xs \<Longrightarrow> count_list xs x = (if x \<in> set xs then 1 else 0)"
  by (induction xs) auto

lemma groupby_mean_count:
  "count_list (map fst (groupby_mean key col frame)) k = (if k \<in> key ` set frame then 1 else 0)"
  unfolding groupby_mean_keys by (simp add: count_list_distinct)

lemma groupby_mean_entry:
  "(k, v) \<in> set (groupby_mean key col frame) \<longleftrightarrow>
     k \<in> key ` set frame \<and> v = mean (map col (filter (\<lambda>r. key r = k) frame))"
  by (auto simp: groupby_mean_def)

lemma group_nonempty:
  "k \<in> key ` set frame \<Longrightarrow> filter (\<lambda>r. key r = k) frame \<noteq> []"
  by (auto simp: filter_empty_conv)

lemma sum_list_indicator:
  "\<forall>r \<in> set g. col r = 0 \<or> col r = (1::int) \<Longrightarrow>
   sum_list (map col g) = int (length (filter (\<lambda>r. col r = 1) g))"
  by (induction g) auto

lemma filter_filter_conj:
  "filter (\<lambda>r. col r = (1::int)) (filter (\<lambda>r. key r = k) g) = filter (\<lambda>r. key r = k \<and> col r = 1) g"
  by (induction g) auto

lemma mean_indicator:
  assumes "\<forall>r \<in> set g. col r = 0 \<or> col r = (1::int)" and "g \<noteq> []"
  shows "mean (map col g) = Some (real (length (filter (\<lambda>r. col r = 1) g)) / real (length g))"
  using assms by (simp add: mean_def sum_list_indicator)

lemma sample_df_binary: "\<forall>r \<in> set sample_df. diabetes r = 0 \<or> diabetes r = 1"
  by (simp add: sample_df_def patient1_def patient2_def patient3_def)

lemma sample_gender_chart:
  "gender_chart sample_df = [(''Female'', Some (1 / 2)), (''Male'', Some 0)]"
  by (simp add: gender_chart_def groupby_mean_def mean_def sample_df_def
      patient1_def patient2_def patient3_def)

lemma sample_heatmap_data:
  "heatmap_data sample_df =
     [((''Female'', ''18-35''), Some 0), ((''Female'', ''65+''), Some 1),
      ((''Male'', ''50-65''), Some 0)]"
  by (simp add: heatmap_data_def groupby_mean_def mean_def sample_df_def
      patient1_def patient2_def patient3_def)

lemma groupby_mean_binary:
  assumes "\<forall>r \<in> set fd. diabetes r = 0 \<or> diabetes r = 1"
  shows "(\<forall>k. count_list (map fst (groupby_mean key diabetes fd)) k
              = (if k \<in> key ` set fd then 1 else 0)) \<and>
         (\<forall>k v. (k, v) \<in> set (groupby_mean key diabetes fd) \<longrightarrow>
            0 < length (filter (\<lambda>r. key r = k) fd) \<and>
            (\<exists>p. v = Some p \<and>
               p = real (length (filter (\<lambda>r. key r = k \<and> diabetes r = 1) fd))
                   / real (length (filter (\<lambda>r. key r = k) fd)) \<and>
               0 \<le> p \<and> p \<le> 1))"
proof (intro conjI allI impI)
  fix k
  show "count_list (map fst (groupby_mean key diabetes fd)) k
      = (if k \<in> key ` set fd then 1 else 0)"
    by (rule groupby_mean_count)
next
  fix k v
  assume kv: "(k, v) \<in> set (groupby_mean key diabetes fd)"
  let ?g = "filter (\<lambda>r. key r = k) fd"
  from kv have k: "k \<in> key ` set fd" and v: "v = mean (map diabetes ?g)"
    by (simp_all add: groupby_mean_entry)
  from k have ne: "?g \<noteq> []"
    by (rule group_nonempty)
  then show "0 < length ?g"
    by simp
  from assms have bin: "\<forall>r \<in> set ?g. diabetes r = 0 \<or> diabetes r = 1"
    by simp
  let ?p = "real (length (filter (\<lambda>r. key r = k \<and> diabetes r = 1) fd)) / real (length ?g)"
  have "v = Some ?p"
    unfolding v mean_indicator [OF bin ne] filter_filter_conj ..
  moreover have "0 \<le> ?p"
    by simp
  moreover have "length (filter (\<lambda>r. key r = k \<and> diabetes r = 1) fd) \<le> length ?g"
    unfolding filter_filter_conj [symmetric] by (rule length_filter_le)
  then have "?p \<le> 1"
    using ne by (simp add: divide_le_eq_1)
  ultimately
  show "\<exists>p. v = Some p \<and> p = ?p \<and> 0 \<le> p \<and> p \<le> 1"
    by blast
qed

lemma sample_comorb_df_binary:
  "\<forall>r \<in> set sample_comorb_df. diabetes r = 0 \<or> diabetes r = 1"
  by (simp add: sample_comorb_df_def columns_extend patient1_def patient2_def patient3_def)

lemma sample_comorb_chart:
  "comorb_chart sample_comorb_df =
     [(''Both'', Some 1), (''Hypertension Only'', Some 0), (''None'', Some 0)]"
  by (simp add: comorb_chart_def groupby_mean_def mean_def sample_comorb_df_def
      comorbidity_extend columns_extend patient1_def patient2_def patient3_def)

text \<open>
  Claim C3. For every filtered frame whose \<open>diabetes\<close> cells are 0 or 1, each of the four
  tables of group means by one column (\<open>age_group_chart\<close>, \<open>gender_chart\<close>,
  \<open>smoke_chart\<close> on the filtered frame, \<open>comorb_chart\<close> on the frame with the comorbidity
  column) has each value of its key column that occurs in the frame exactly once and no
  other value; the mean of a group is a number (not \<^verbatim>\<open>NaN\<close>: the group has at least
  one line), equal to the number of lines of the group with \<open>diabetes = 1\<close> divided by the
  number of lines of the group, and so lies between 0 and 1. The same holds of
  \<open>groupby_mean\<close> at any key column.
\<close>

theorem groupby_mean_prevalence:
  assumes "\<forall>r \<in> set fd. diabetes r = 0 \<or> diabetes r = 1"
    and "\<forall>r \<in> set fc. diabetes r = 0 \<or> diabetes r = 1"
  shows
  "(\<forall>k. count_list (map fst (age_group_chart fd)) k = (if k \<in> age_group ` set fd then 1 else 0)) \<and>
   (\<forall>k v. (k, v) \<in> set (age_group_chart fd) \<longrightarrow>
      0 < length (filter (\<lambda>r. age_group r = k) fd) \<and>
      (\<exists>p. v = Some p \<and>
         p = real (length (filter (\<lambda>r. age_group r = k \<and> diabetes r = 1) fd))
             / real (length (filter (\<lambda>r. age_group r = k) fd)) \<and>
         0 \<le> p \<and> p \<le> 1)) \<and>
   (\<forall>k. count_list (map fst (gender_chart fd)) k = (if k \<in> gender ` set fd then 1 else 0)) \<and>
   (\<forall>k v. (k, v) \<in> set (gender_chart fd) \<longrightarrow>
      0 < length (filter (\<lambda>r. gender r = k) fd) \<and>
      (\<exists>p. v = Some p \<and>
         p = real (length (filter (\<lambda>r. gender r = k \<and> diabetes r = 1) fd))
             / real (length (filter (\<lambda>r. gender r = k) fd)) \<and>
         0 \<le> p \<and> p \<le> 1)) \<and>
   (\<forall>k. count_list (map fst (smoke_chart fd)) k = (if k \<in> smoking_history ` set fd then 1 else 0)) \<and>
   (\<forall>k v. (k, v) \<in> set (smoke_chart fd) \<longrightarrow>
      0 < length (filter (\<lambda>r. smoking_history r = k) fd) \<and>
      (\<exists>p. v = Some p \<and>
         p = real (length (filter (\<lambda>r. smoking_history r = k \<and> diabetes r = 1) fd))
             / real (length (filter (\<lambda>r. smoking_history r = k) fd)) \<and>
         0 \<le> p \<and> p \<le> 1)) \<and>
   (\<forall>k. count_list (map fst (comorb_chart fc)) k = (if k \<in> comorbidity ` set fc then 1 else 0)) \<and>
   (\<forall>k v. (k, v) \<in> set (comorb_chart fc) \<longrightarrow>
      0 < length (filter (\<lambda>r. comorbidity r = k) fc) \<and>
      (\<exists>p. v = Some p \<and>
         p = real (length (filter (\<lambda>r. comorbidity r = k \<and> diabetes r = 1) fc))
             / real (length (filter (\<lambda>r. comorbidity r = k) fc)) \<and>
         0 \<le> p \<and> p \<le> 1)) \<and>
   (\<forall>k. count_list (map fst (groupby_mean key diabetes fd)) k = (if k \<in> key ` set fd then 1 else 0)) \<and>
   (\<forall>k v. (k, v) \<in> set (groupby_mean key diabetes fd) \<longrightarrow>
      0 < length (filter (\<lambda>r. key r = k) fd) \<and>
      (\<exists>p. v = Some p \<and>
         p = real (length (filter (\<lambda>r. key r = k \<and> diabetes r = 1) fd))
             / real (length (filter (\<lambda>r. key r = k) fd)) \<and>
         0 \<le> p \<and> p \<le> 1))"
  unfolding age_group_chart_def gender_chart_def smoke_chart_def comorb_chart_def
  using groupby_mean_binary [OF assms(1), of age_group]
    groupby_mean_binary [OF assms(1), of gender]
    groupby_mean_binary [OF assms(1), of smoking_history]
    groupby_mean_binary [OF assms(2), of comorbidity]
    groupby_mean_binary [OF assms(1), of key]
  by (intro conjI) blast+

theorem groupby_mean_prevalence_witness:
  "(diabetes patient1 = 1 \<and> diabetes patient2 = 0 \<and> diabetes patient3 = 0) \<and>
   count_list (map fst (gender_chart sample_df)) ''Female'' = 1 \<and>
   count_list (map fst (gender_chart sample_df)) ''Other'' = 0 \<and>
   (''Female'', Some (1 / 2)) \<in> set (gender_chart sample_df) \<and>
   length (filter (\<lambda>r. gender r = ''Female'') sample_df) = 2 \<and>
   length (filter (\<lambda>r. gender r = ''Female'' \<and> diabetes r = 1) sample_df) = 1 \<and>
   count_list (map fst (age_group_chart sample_df)) ''65+'' = 1 \<and>
   count_list (map fst (age_group_chart sample_df)) ''35-50'' = 0 \<and>
   count_list (map fst (smoke_chart sample_df)) ''never'' = 1 \<and>
   count_list (map fst (smoke_chart sample_df)) ''former'' = 0 \<and>
   count_list (map fst (comorb_chart sample_comorb_df)) ''Both'' = 1 \<and>
   count_list (map fst (comorb_chart sample_comorb_df)) ''Heart Disease Only'' = 0 \<and>
   (''Both'', Some 1) \<in> set (comorb_chart sample_comorb_df)"
proof -
  note t = groupby_mean_prevalence [OF sample_df_binary sample_comorb_df_binary]
  have g: "''Female'' \<in> gender ` set sample_df" "''Other'' \<notin> gender ` set sample_df"
    and a: "''65+'' \<in> age_group ` set sample_df" "''35-50'' \<notin> age_group ` set sample_df"
    and s: "''never'' \<in> smoking_history ` set sample_df"
      "''former'' \<notin> smoking_history ` set sample_df"
    by (simp_all add: sample_df_def patient1_def patient2_def patient3_def)
  have c: "''Both'' \<in> comorbidity ` set sample_comorb_df"
      "''Heart Disease Only'' \<notin> comorbidity ` set sample_comorb_df"
    by (simp_all add: sample_comorb_df_def comorbidity_extend)
  from t [THEN conjunct1, rule_format, of "''65+''"]
    t [THEN conjunct1, rule_format, of "''35-50''"] a
  have "count_list (map fst (age_group_chart sample_df)) ''65+'' = 1"
      "count_list (map fst (age_group_chart sample_df)) ''35-50'' = 0"
    by simp_all
  moreover
  from t [THEN conjunct2, THEN conjunct2, THEN conjunct1, rule_format, of "''Female''"]
    t [THEN conjunct2, THEN conjunct2, THEN conjunct1, rule_format, of "''Other''"] g
  have "count_list (map fst (gender_chart sample_df)) ''Female'' = 1"
      "count_list (map fst (gender_chart sample_df)) ''Other'' = 0"
    by simp_all
  moreover
  from t [THEN conjunct2, THEN conjunct2, THEN conjunct2, THEN conjunct2, THEN conjunct1, rule_format, of "''never''"]
    t [THEN conjunct2, THEN conjunct2, THEN conjunct2, THEN conjunct2, THEN conjunct1, rule_format, of "''former''"] s
  have "count_list (map fst (smoke_chart sample_df)) ''never'' = 1"
      "count_list (map fst (smoke_chart sample_df)) ''former'' = 0"
    by simp_all
  moreover
  from t [THEN conjunct2, THEN conjunct2, THEN conjunct2, THEN conjunct2, THEN conjunct2, THEN conjunct2, THEN conjunct1, rule_format, of "''Both''"]
    t [THEN conjunct2, THEN conjunct2, THEN conjunct2, THEN conjunct2, THEN conjunct2, THEN conjunct2, THEN conjunct1, rule_format, of "''Heart Disease Only''"] c
  have "count_list (map fst (comorb_chart sample_comorb_df)) ''Both'' = 1"
      "count_list (map fst (comorb_chart sample_comorb_df)) ''Heart Disease Only'' = 0"
    by simp_all
  moreover
  have "(''Female'', Some (1 / 2)) \<in> set (gender_chart sample_df)"
      "(''Both'', Some 1) \<in> set (comorb_chart sample_comorb_df)"
    by (simp_all add: sample_gender_chart sample_comorb_chart)
  ultimately show ?thesis
    by (simp add: sample_df_def patient1_def patient2_def patient3_def)
qed

lemma groupby_mean_pair:
  "(\<forall>a b. count_list (map fst (groupby_mean (\<lambda>r. (fA r, fB r)) diabetes fd)) (a, b)
             = (if \<exists>r \<in> set fd. fA r = a \<and> fB r = b then 1 else 0)) \<and>
   (\<forall>a b v. ((a, b), v) \<in> set (groupby_mean (\<lambda>r. (fA r, fB r)) diabetes fd) \<longrightarrow>
      0 < length (filter (\<lambda>r. fA r = a \<and> fB r = b) fd) \<and>
      v = Some (real_of_int (sum_list (map diabetes (filter (\<lambda>r. fA r = a \<and> fB r = b) fd)))
                / real (length (filter (\<lambda>r. fA r = a \<and> fB r = b) fd))))"
proof (intro conjI allI impI)
  fix a b
  have "(a, b) \<in> (\<lambda>r. (fA r, fB r)) ` set fd \<longleftrightarrow> (\<exists>r \<in> set fd. fA r = a \<and> fB r = b)"
    by auto
  then show "count_list (map fst (groupby_mean (\<lambda>r. (fA r, fB r)) diabetes fd)) (a, b)
      = (if \<exists>r \<in> set fd. fA r = a \<and> fB r = b then 1 else 0)"
    unfolding groupby_mean_count by simp
next
  fix a b v
  assume kv: "((a, b), v) \<in> set (groupby_mean (\<lambda>r. (fA r, fB r)) diabetes fd)"
  let ?g = "filter (\<lambda>r. fA r = a \<and> fB r = b) fd"
  have g: "filter (\<lambda>r. (fA r, fB r) = (a, b)) fd = ?g"
    by simp
  from kv have k: "(a, b) \<in> (\<lambda>r. (fA r, fB r)) ` set fd" and v: "v = mean (map diabetes ?g)"
    by (simp_all add: groupby_mean_entry)
  from group_nonempty [OF k] have ne: "?g \<noteq> []"
    unfolding g .
  then show "0 < length ?g"
    by simp
  from ne show "v = Some (real_of_int (sum_list (map diabetes ?g)) / real (length ?g))"
    unfolding v by (simp add: mean_def)
qed

lemma sample_heatmap_df:
  "heatmap_df sample_df =
     [((''18-35'', ''never''), Some 0), ((''50-65'', ''current''), Some 0),
      ((''65+'', ''never''), Some 1)]"
  by (simp add: heatmap_df_def groupby_mean_def mean_def sample_df_def
      patient1_def patient2_def patient3_def)

text \<open>
  Claim C7. For every filtered frame, each of the two tables of group means by a pair of
  columns (\<open>heatmap_data\<close> by gender and age group, \<open>heatmap_df\<close> by age group and
  smoking history) has one line for each combination of the two values that occurs in
  the frame and none for a combination that does not occur; its value is the mean of
  \<open>diabetes\<close> over the lines of that combination, of which there is at least one. The
  same holds of \<open>groupby_mean\<close> at any pair of key columns.
\<close>

theorem groupby_pair_mean:
  "(\<forall>a b. count_list (map fst (heatmap_data fd)) (a, b)
             = (if \<exists>r \<in> set fd. gender r = a \<and> age_group r = b then 1 else 0)) \<and>
   (\<forall>a b v. ((a, b), v) \<in> set (heatmap_data fd) \<longrightarrow>
      0 < length (filter (\<lambda>r. gender r = a \<and> age_group r = b) fd) \<and>
      v = Some (real_of_int (sum_list (map diabetes (filter (\<lambda>r. gender r = a \<and> age_group r = b) fd)))
                / real (length (filter (\<lambda>r. gender r = a \<and> age_group r = b) fd)))) \<and>
   (\<forall>a b. count_list (map fst (heatmap_df fd)) (a, b)
             = (if \<exists>r \<in> set fd. age_group r = a \<and> smoking_history r = b then 1 else 0)) \<and>
   (\<forall>a b v. ((a, b), v) \<in> set (heatmap_df fd) \<longrightarrow>
      0 < length (filter (\<lambda>r. age_group r = a \<and> smoking_history r = b) fd) \<and>
      v = Some (real_of_int (sum_list (map diabetes (filter (\<lambda>r. age_group r = a \<and> smoking_history r = b) fd)))
                / real (length (filter (\<lambda>r. age_group r = a \<and> smoking_history r = b) fd)))) \<and>
   (\<forall>a b. count_list (map fst (groupby_mean (\<lambda>r. (fA r, fB r)) diabetes fd)) (a, b)
             = (if \<exists>r \<in> set fd. fA r = a \<and> fB r = b then 1 else 0)) \<and>
   (\<forall>a b v. ((a, b), v) \<in> set (groupby_mean (\<lambda>r. (fA r, fB r)) diabetes fd) \<longrightarrow>
      0 < length (filter (\<lambda>r. fA r = a \<and> fB r = b) fd) \<and>
      v = Some (real_of_int (sum_list (map diabetes (filter (\<lambda>r. fA r = a \<and> fB r = b) fd)))
                / real (length (filter (\<lambda>r. fA r = a \<and> fB r = b) fd))))"
  unfolding heatmap_data_def heatmap_df_def
  using groupby_mean_pair [of gender age_group fd]
    groupby_mean_pair [of age_group smoking_history fd]
    groupby_mean_pair [of fA fB fd]
  by (intro conjI) blast+

theorem groupby_pair_mean_witness:
  "count_list (map fst (heatmap_data sample_df)) (''Female'', ''65+'') = 1 \<and>
   count_list (map fst (heatmap_data sample_df)) (''Male'', ''65+'') = 0 \<and>
   ((''Female'', ''65+''), Some 1) \<in> set (heatmap_data sample_df) \<and>
   filter (\<lambda>r. gender r = ''Female'' \<and> age_group r = ''65+'') sample_df = [patient1] \<and>
   diabetes patient1 = 1 \<and>
   count_list (map fst (heatmap_df sample_df)) (''50-65'', ''current'') = 1 \<and>
   count_list (map fst (heatmap_df sample_df)) (''50-65'', ''never'') = 0 \<and>
   ((''50-65'', ''current''), Some 0) \<in> set (heatmap_df sample_df) \<and>
   filter (\<lambda>r. age_group r = ''50-65'' \<and> smoking_history r = ''current'') sample_df
     = [patient2] \<and>
   diabetes patient2 = 0"
proof -
  note t = groupby_pair_mean [of sample_df]
  have f: "\<exists>r \<in> set sample_df. gender r = ''Female'' \<and> age_group r = ''65+''"
    and m: "\<not> (\<exists>r \<in> set sample_df. gender r = ''Male'' \<and> age_group r = ''65+'')"
    and c: "\<exists>r \<in> set sample_df. age_group r = ''50-65'' \<and> smoking_history r = ''current''"
    and n: "\<not> (\<exists>r \<in> set sample_df. age_group r = ''50-65'' \<and> smoking_history r = ''never'')"
    by (simp_all add: sample_df_def patient1_def patient2_def patient3_def)
  from t [THEN conjunct1, rule_format, of "''Female''" "''65+''"]
    t [THEN conjunct1, rule_format, of "''Male''" "''65+''"] f m
  have "count_list (map fst (heatmap_data sample_df)) (''Female'', ''65+'') = 1"
      "count_list (map fst (heatmap_data sample_df)) (''Male'', ''65+'') = 0"
    by simp_all
  moreover
  from t [THEN conjunct2, THEN conjunct2, THEN conjunct1, rule_format, of "''50-65''" "''current''"]
    t [THEN conjunct2, THEN conjunct2, THEN conjunct1, rule_format, of "''50-65''" "''never''"] c n
  have "count_list (map fst (heatmap_df sample_df)) (''50-65'', ''current'') = 1"
      "count_list (map fst (heatmap_df sample_df)) (''50-65'', ''never'') = 0"
    by simp_all
  moreover
  have "((''Female'', ''65+''), Some 1) \<in> set (heatmap_data sample_df)"
      "((''50-65'', ''current''), Some 0) \<in> set (heatmap_df sample_df)"
    by (simp_all add: sample_heatmap_data sample_heatmap_df)
  ultimately show ?thesis
    by (simp add: sample_df_def patient1_def patient2_def patient3_def)
qed

section \<open>Properties of float64 rounding\<close>

lemma powr_powi: "2 powr real_of_int k = 2 powi k"
  by (simp add: powr_real_of_int')

lemma powr_powi_Suc: "2 powr (real_of_int k + 1) = 2 powi (k + 1)"
  using powr_powi [of "k + 1"] by simp

lemma log2_bounds:
  assumes "0 < x"
  shows "2 powi \<lfloor>log 2 x\<rfloor> \<le> x" and "x < 2 powi (\<lfloor>log 2 x\<rfloor> + 1)"
proof -
  have "2 powr real_of_int \<lfloor>log 2 x\<rfloor> \<le> x \<and> x < 2 powr real_of_int (\<lfloor>log 2 x\<rfloor> + 1)"
    using floor_log_eq_powr_iff [of x 2 "\<lfloor>log 2 x\<rfloor>"] assms by simp
  then show "2 powi \<lfloor>log 2 x\<rfloor> \<le> x" and "x < 2 powi (\<lfloor>log 2 x\<rfloor> + 1)"
    by (simp_all add: powr_powi powr_powi_Suc)
qed

lemma log2_floor_eq:
  assumes "2 powi k \<le> x" and "x < 2 powi (k + 1)"
  shows "\<lfloor>log 2 x\<rfloor> = k"
proof -
  have "(0::real) < 2 powi k"
    by (simp add: zero_less_power_int)
  with assms have "0 < x"
    by linarith
  moreover have "2 powr real_of_int k \<le> x \<and> x < 2 powr real_of_int (k + 1)"
    using assms by (simp add: powr_powi powr_powi_Suc)
  ultimately show ?thesis
    using floor_log_eq_powr_iff [of x 2 k] by simp
qed

lemma round_even_of_int: "round_even (of_int n) = n"
  by (simp add: round_even_def)

lemma round_even_abs: "\<bar>of_int (round_even y) - y\<bar> \<le> 1 / 2"
  using of_int_round_abs_le [of y] by (auto simp: round_even_def Let_def)

lemma round_even_unique: "\<bar>y - of_int n\<bar> < 1 / 2 \<Longrightarrow> round_even y = n"
  using round_unique' [of y n] by (auto simp: round_even_def Let_def)

lemma round_even_ge: "of_int n \<le> y \<Longrightarrow> n \<le> round_even y"
proof -
  assume "of_int n \<le> y"
  with round_even_abs [of y] have "real_of_int n - 1 / 2 \<le> of_int (round_even y)"
    by linarith
  then have "real_of_int n - 1 < of_int (round_even y)"
    by linarith
  then have "real_of_int (n - 1) < of_int (round_even y)"
    by simp
  then have "n - 1 < round_even y"
    by (simp only: of_int_less_iff)
  then show ?thesis by simp
qed

lemma round_even_le: "y \<le> of_int n \<Longrightarrow> round_even y \<le> n"
proof -
  assume "y \<le> of_int n"
  with round_even_abs [of y] have "of_int (round_even y) \<le> real_of_int n + 1 / 2"
    by linarith
  then have "of_int (round_even y) < real_of_int (n + 1)"
    by simp
  then have "round_even y < n + 1"
    by (simp only: of_int_less_iff)
  then show ?thesis by simp
qed

lemma pw_pos: "(0::real) < 2 powi k"
  by (simp add: zero_less_power_int)

lemma pw_add: "(2::real) powi (a + b) = 2 powi a * 2 powi b"
  by (simp add: power_int_add)

lemma pw_diff: "(2::real) powi (a - b) = 2 powi a / 2 powi b"
  by (simp add: power_int_diff)

lemma pw_mono: "a \<le> b \<Longrightarrow> (2::real) powi a \<le> 2 powi b"
  by (rule power_int_increasing) simp_all

lemma pw_strict_mono: "a < b \<Longrightarrow> (2::real) powi a < 2 powi b"
  by (rule power_int_strict_increasing) simp_all

lemma pw_less_cancel: "(2::real) powi a < 2 powi b \<Longrightarrow> a < b"
  using pw_mono [of b a] by (cases "a < b") auto

lemma pw_le_cancel: "(2::real) powi a \<le> 2 powi b \<Longrightarrow> a \<le> b"
  using pw_strict_mono [of b a] by (cases "a \<le> b") auto

lemma pw_nat: "0 \<le> k \<Longrightarrow> (2::real) powi k = of_int (2 ^ nat k)"
  by (simp add: power_int_nonneg_exp)

lemma rnd_exact:
  assumes x: "x = of_int m * 2 powi e" and m: "\<bar>m\<bar> < 2 ^ 53"
    and e: "- 1074 \<le> e" "e \<le> 971"
  shows "rnd x = Fin x"
proof (cases "m = 0")
  case True
  then show ?thesis
    by (simp add: x rnd_def)
next
  case False
  then have x0: "x \<noteq> 0"
    by (simp add: x)
  have ax: "\<bar>x\<bar> = of_int \<bar>m\<bar> * 2 powi e"
    unfolding x by (simp add: abs_mult)
  from x0 have pos: "0 < \<bar>x\<bar>"
    by simp
  define E where "E = \<lfloor>log 2 \<bar>x\<bar>\<rfloor>"
  have lo: "2 powi E \<le> \<bar>x\<bar>"
    unfolding E_def using pos by (rule log2_bounds)
  have "real_of_int \<bar>m\<bar> < 2 ^ 53"
    using m by (metis of_int_less_iff of_int_numeral of_int_power)
  then have "\<bar>x\<bar> < 2 ^ 53 * 2 powi e"
    unfolding ax using pw_pos [of e] by (simp add: mult_strict_right_mono)
  also have "\<dots> = 2 powi (53 + e)"
    by (simp add: pw_add)
  finally have hi: "\<bar>x\<bar> < 2 powi (53 + e)" .
  from lo hi have "(2::real) powi E < 2 powi (53 + e)"
    by linarith
  then have "E < 53 + e"
    by (rule pw_less_cancel)
  with e have ue: "ulp_exp x \<le> e"
    unfolding ulp_exp_def E_def [symmetric] by simp
  define d where "d = e - ulp_exp x"
  from ue have d: "0 \<le> d"
    unfolding d_def by simp
  have "x / 2 powi ulp_exp x = of_int m * 2 powi d"
    unfolding x d_def by (simp add: pw_diff)
  also have "\<dots> = of_int (m * 2 ^ nat d)"
    using d by (simp add: pw_nat)
  finally have q: "x / 2 powi ulp_exp x = of_int (m * 2 ^ nat d)" .
  have r: "of_int (round_even (x / 2 powi ulp_exp x)) * 2 powi ulp_exp x = x"
    unfolding q round_even_of_int unfolding q [symmetric]
    using pw_pos [of "ulp_exp x"] by simp
  have "\<bar>x\<bar> < 2 ^ 53 * 2 powi 971"
    using hi pw_mono [of "53 + e" 1024] e by (simp add: pw_add)
  then have "\<bar>x\<bar> < 2 ^ 1024"
    by simp
  then have "\<not> 2 ^ 1024 \<le> x" "\<not> x \<le> - (2 ^ 1024)"
    by linarith+
  then show ?thesis
    using x0 by (simp add: rnd_def Let_def r)
qed

lemma pw_52: "real_of_int (2 ^ 52) * 2 powi (E - 52) = 2 powi E"
proof -
  have "(2::real) powi E = 2 powi 52 * 2 powi (E - 52)"
    unfolding pw_add [symmetric] by simp
  then show ?thesis by simp
qed

lemma pw_53: "real_of_int (2 ^ 53) * 2 powi (E - 52) = 2 powi (E + 1)"
proof -
  have "(2::real) powi (E + 1) = 2 powi 53 * 2 powi (E - 52)"
    unfolding pw_add [symmetric] by (simp add: add.commute)
  then show ?thesis by simp
qed

lemma rnd_normal:
  assumes lo: "2 powi E \<le> x" and hi: "x < 2 powi (E + 1)" and E: "- 1022 \<le> E"
  defines "k \<equiv> round_even (x / 2 powi (E - 52))"
  shows "rnd x = (if (2::real) ^ 1024 \<le> of_int k * 2 powi (E - 52) then PInf
                  else Fin (of_int k * 2 powi (E - 52)))"
    and "2 ^ 52 \<le> k" and "k \<le> 2 ^ 53"
    and "\<bar>of_int k * 2 powi (E - 52) - x\<bar> \<le> 2 powi (E - 53)"
proof -
  let ?u = "(2::real) powi (E - 52)"
  have u: "0 < ?u"
    by (rule pw_pos)
  from lo pw_pos [of E] have x: "0 < x"
    by linarith
  then have ax: "\<bar>x\<bar> = x"
    by simp
  have "\<lfloor>log 2 x\<rfloor> = E"
    using lo hi by (rule log2_floor_eq)
  with E have ue: "ulp_exp x = E - 52"
    by (simp add: ulp_exp_def ax)
  have "2 powi E / ?u \<le> x / ?u"
    using lo u by (simp add: divide_right_mono)
  moreover have "2 powi E / ?u = real_of_int (2 ^ 52)"
    using pw_52 [of E] u by (simp add: field_simps)
  ultimately have "real_of_int (2 ^ 52) \<le> x / ?u"
    by simp
  then show k52: "2 ^ 52 \<le> k"
    unfolding k_def by (rule round_even_ge)
  have "x / ?u \<le> 2 powi (E + 1) / ?u"
    using hi u by (simp add: divide_right_mono)
  moreover have "2 powi (E + 1) / ?u = real_of_int (2 ^ 53)"
    using pw_53 [of E] u by (simp add: field_simps)
  ultimately have "x / ?u \<le> real_of_int (2 ^ 53)"
    by simp
  then show "k \<le> 2 ^ 53"
    unfolding k_def by (rule round_even_le)
  have "\<bar>of_int k - x / ?u\<bar> \<le> 1 / 2"
    unfolding k_def by (rule round_even_abs)
  then have "\<bar>of_int k - x / ?u\<bar> * ?u \<le> 1 / 2 * ?u"
    using u by (simp add: mult_right_mono)
  moreover have "\<bar>of_int k - x / ?u\<bar> * ?u = \<bar>of_int k * ?u - x\<bar>"
  proof -
    have "(of_int k - x / ?u) * ?u = of_int k * ?u - x"
      using u by (simp add: left_diff_distrib)
    then have "\<bar>of_int k * ?u - x\<bar> = \<bar>of_int k - x / ?u\<bar> * \<bar>?u\<bar>"
      by (metis abs_mult)
    then show ?thesis
      using u by simp
  qed
  moreover have "1 / 2 * ?u = 2 powi (E - 53)"
    using pw_diff [of "E - 52" 1] by simp
  ultimately show "\<bar>of_int k * ?u - x\<bar> \<le> 2 powi (E - 53)"
    by simp
  from k52 have "0 \<le> real_of_int k"
    by simp
  with u have "0 \<le> of_int k * ?u"
    by simp
  moreover have "(0::real) < 2 ^ 1024"
    by simp
  ultimately have "\<not> of_int k * ?u \<le> - (2 ^ 1024)"
    by linarith
  then show "rnd x = (if 2 ^ 1024 \<le> of_int k * ?u then PInf else Fin (of_int k * ?u))"
    using x by (simp add: rnd_def Let_def ue k_def)
qed

lemma rnd_overflow:
  assumes "2 ^ 1024 \<le> x"
  shows "rnd x = PInf"
proof -
  have "(0::real) < 2 ^ 1024"
    by simp
  with assms have x: "0 < x"
    by linarith
  define E where "E = \<lfloor>log 2 x\<rfloor>"
  have lo: "2 powi E \<le> x" and hi: "x < 2 powi (E + 1)"
    unfolding E_def using x by (rule log2_bounds)+
  from assms hi have "(2::real) powi 1024 < 2 powi (E + 1)"
    by simp
  then have E: "1024 \<le> E"
    using pw_less_cancel [of 1024 "E + 1"] by simp
  then have E': "- 1022 \<le> E"
    by simp
  note n = rnd_normal [OF lo hi E']
  let ?k = "round_even (x / 2 powi (E - 52))"
  have "real_of_int (2 ^ 52) \<le> of_int ?k"
    using n(2) by (simp only: of_int_le_iff)
  then have "real_of_int (2 ^ 52) * 2 powi (E - 52) \<le> of_int ?k * 2 powi (E - 52)"
    using pw_pos [of "E - 52"] by (simp add: mult_right_mono)
  moreover have "(2::real) powi 1024 \<le> 2 powi E"
    using E by (rule pw_mono)
  ultimately have "(2::real) ^ 1024 \<le> of_int ?k * 2 powi (E - 52)"
    unfolding pw_52 by simp
  then show ?thesis
    unfolding n(1) by simp
qed

lemma rnd_rel:
  assumes lo: "2 powi (- 1022) \<le> x" and hi: "x < 2 powi 1023"
  obtains p where "rnd x = Fin p" and "\<bar>p - x\<bar> \<le> x * 2 powi (- 53)"
proof -
  from lo pw_pos [of "- 1022"] have x: "0 < x"
    by linarith
  define E where "E = \<lfloor>log 2 x\<rfloor>"
  have Elo: "2 powi E \<le> x" and Ehi: "x < 2 powi (E + 1)"
    unfolding E_def using x by (rule log2_bounds)+
  from lo Ehi have "(2::real) powi (- 1022) < 2 powi (E + 1)"
    by linarith
  then have E1: "- 1022 \<le> E"
    using pw_less_cancel [of "- 1022" "E + 1"] by simp
  from Elo hi have "(2::real) powi E < 2 powi 1023"
    by linarith
  then have E2: "E < 1023"
    by (rule pw_less_cancel)
  note n = rnd_normal [OF Elo Ehi E1]
  let ?k = "round_even (x / 2 powi (E - 52))"
  let ?p = "of_int ?k * (2::real) powi (E - 52)"
  have "real_of_int ?k \<le> of_int (2 ^ 53)"
    using n(3) by (simp only: of_int_le_iff)
  then have "?p \<le> of_int (2 ^ 53) * 2 powi (E - 52)"
    using pw_pos [of "E - 52"] by (simp add: mult_right_mono)
  also have "\<dots> = 2 powi (E + 1)"
    by (rule pw_53)
  also have "\<dots> \<le> 2 powi 1023"
    using E2 by (intro pw_mono) simp
  also have "\<dots> < 2 powi 1024"
    by (intro pw_strict_mono) simp
  finally have "\<not> 2 ^ 1024 \<le> ?p"
    by simp
  then have r: "rnd x = Fin ?p"
    unfolding n(1) by simp
  have "(2::real) powi (E - 53) = 2 powi E * 2 powi (- 53)"
    unfolding pw_add [symmetric] by simp
  also have "\<dots> \<le> x * 2 powi (- 53)"
    using Elo pw_pos [of "- 53"] by (simp add: mult_right_mono)
  finally have "\<bar>?p - x\<bar> \<le> x * 2 powi (- 53)"
    using n(4) by linarith
  with r show ?thesis
    by (rule that)
qed

lemma rnd_Fin_normalised:
  assumes r: "rnd x = Fin v" and v: "2 powi (- 511) \<le> v"
  obtains M E where "v = of_int M * 2 powi (E - 52)" and "2 ^ 52 \<le> M" and "M < 2 ^ 53"
proof -
  from v pw_pos [of "- 511"] have vpos: "0 < v"
    by linarith
  have x0: "x \<noteq> 0"
    using r vpos by (auto simp: rnd_def)
  have xpos: "0 < x"
  proof (rule ccontr)
    assume "\<not> 0 < x"
    with x0 have neg: "x < 0"
      by simp
    let ?u = "(2::real) powi ulp_exp x"
    have "x / ?u \<le> real_of_int 0"
      using neg pw_pos [of "ulp_exp x"] by (simp add: divide_nonpos_pos)
    then have "round_even (x / ?u) \<le> 0"
      by (rule round_even_le)
    then have "real_of_int (round_even (x / ?u)) \<le> 0"
      by simp
    then have "of_int (round_even (x / ?u)) * ?u \<le> 0"
      using pw_pos [of "ulp_exp x"] by (simp add: mult_nonpos_nonneg)
    with r x0 have "v \<le> 0"
      by (auto simp: rnd_def Let_def split: if_splits)
    with vpos show False
      by simp
  qed
  define E0 where "E0 = \<lfloor>log 2 x\<rfloor>"
  have lo: "2 powi E0 \<le> x" and hi: "x < 2 powi (E0 + 1)"
    unfolding E0_def using xpos by (rule log2_bounds)+
  show ?thesis
  proof (cases "- 1022 \<le> E0")
    case True
    note n = rnd_normal [OF lo hi True]
    let ?k = "round_even (x / 2 powi (E0 - 52))"
    from r have vk: "v = of_int ?k * 2 powi (E0 - 52)"
      unfolding n(1) by (simp split: if_splits)
    show ?thesis
    proof (cases "?k < 2 ^ 53")
      case True
      with vk n(2) show ?thesis
        by (rule that [of ?k E0])
    next
      case False
      with n(3) have "?k = 2 ^ 53"
        by simp
      then have "v = real_of_int (2 ^ 53) * 2 powi (E0 - 52)"
        using vk by simp
      also have "\<dots> = 2 powi (E0 + 1)"
        by (rule pw_53)
      also have "\<dots> = real_of_int (2 ^ 52) * 2 powi (E0 + 1 - 52)"
        by (rule pw_52 [symmetric])
      finally show ?thesis
        by (rule that) simp_all
    qed
  next
    case False
    then have "max (E0 - 52) (- 1074) = - 1074"
      by simp
    then have ue: "ulp_exp x = - 1074"
      using xpos unfolding ulp_exp_def E0_def by simp
    have "x < 2 powi (- 1022)"
      using hi pw_mono [of "E0 + 1" "- 1022"] False by simp
    then have "x / 2 powi (- 1074) \<le> 2 powi (- 1022) / 2 powi (- 1074)"
      using pw_pos [of "- 1074"] by (simp add: divide_right_mono)
    also have "(2::real) powi (- 1022) / 2 powi (- 1074) = real_of_int (2 ^ 52)"
      unfolding pw_diff [symmetric] by simp
    finally have "round_even (x / 2 powi (- 1074)) \<le> 2 ^ 52"
      by (rule round_even_le)
    then have "real_of_int (round_even (x / 2 powi (- 1074))) \<le> real_of_int (2 ^ 52)"
      by (simp only: of_int_le_iff)
    then have "of_int (round_even (x / 2 powi (- 1074))) * 2 powi (- 1074)
        \<le> real_of_int (2 ^ 52) * 2 powi (- 1022 - 52)"
      using pw_pos [of "- 1074"] by (simp add: mult_right_mono)
    also have "\<dots> = 2 powi (- 1022)"
      by (rule pw_52)
    also have "\<dots> < 2 powi (- 511)"
      by (rule pw_strict_mono) simp
    finally have "of_int (round_even (x / 2 powi (- 1074))) * 2 powi (- 1074) < v"
      using v by linarith
    moreover from r x0 have "v = of_int (round_even (x / 2 powi (- 1074))) * 2 powi (- 1074)"
      by (simp add: rnd_def Let_def ue split: if_splits)
    ultimately show ?thesis
      by simp
  qed
qed

lemma sqrt_square_exact:
  assumes v: "v = of_int M * 2 powi (E - 52)" and M: "2 ^ 52 \<le> M" "M < 2 ^ 53"
    and E: "- 511 \<le> E" "E \<le> 510"
  obtains p where "rnd (v * v) = Fin p" and "0 \<le> p" and "rnd (sqrt p) = Fin v"
proof -
  define ulp :: real where "ulp = 2 powi (E - 52)"
  define w :: real where "w = 2 powi (E - 53)"
  define B :: real where "B = 2 powi E"
  define V :: real where "V = 2 powi (E + 1)"
  define u :: real where "u = 2 powi (- 53)"
  have ulp: "0 < ulp" and w: "0 < w" and B: "0 < B" and u: "0 < u"
    unfolding ulp_def w_def B_def u_def by (rule pw_pos)+
  have ulp_w: "ulp = 2 * w"
  proof -
    have "(2::real) powi (E - 52) = 2 powi 1 * 2 powi (E - 53)"
      unfolding pw_add [symmetric] by simp
    then show ?thesis
      unfolding ulp_def w_def by simp
  qed
  have Bu: "B * u = w"
    unfolding B_def u_def w_def pw_add [symmetric] by simp
  have Vu: "V * u = ulp"
    unfolding V_def u_def ulp_def pw_add [symmetric] by simp
  have "real_of_int (2 ^ 52) \<le> of_int M"
    using M(1) by (simp only: of_int_le_iff)
  then have "real_of_int (2 ^ 52) * ulp \<le> of_int M * ulp"
    using ulp by (simp add: mult_right_mono)
  then have vlo: "B \<le> v"
    unfolding v ulp_def B_def pw_52 .
  from M(2) have "M \<le> 2 ^ 53 - 1"
    by simp
  then have "real_of_int M \<le> of_int (2 ^ 53 - 1)"
    by (simp only: of_int_le_iff)
  then have "of_int M * ulp \<le> real_of_int (2 ^ 53 - 1) * ulp"
    using ulp by (simp add: mult_right_mono)
  also have "\<dots> = real_of_int (2 ^ 53) * ulp - ulp"
    by (simp add: left_diff_distrib)
  also have "\<dots> = V - ulp"
    unfolding ulp_def V_def pw_53 ..
  finally have vhi: "v \<le> V - ulp"
    unfolding v ulp_def .
  from vlo B have vpos: "0 < v"
    by linarith
  have BB: "B * B = 2 powi (E + E)" and VV: "V * V = 2 powi (E + 1 + (E + 1))"
    unfolding B_def V_def pw_add [symmetric] by simp_all
  have "B * B \<le> v * v"
    using vlo B by (intro mult_mono) simp_all
  moreover have "(2::real) powi (- 1022) \<le> 2 powi (E + E)"
    using E by (intro pw_mono) simp
  ultimately have sq_lo: "2 powi (- 1022) \<le> v * v"
    unfolding BB by linarith
  have "v < V"
    using vhi ulp by linarith
  then have "v * v < V * V"
    using vpos by (intro mult_strict_mono) simp_all
  moreover have "(2::real) powi (E + 1 + (E + 1)) \<le> 2 powi 1022"
    using E by (intro pw_mono) simp
  moreover have "(2::real) powi 1022 < 2 powi 1023"
    by (intro pw_strict_mono) simp
  ultimately have sq_hi: "v * v < 2 powi 1023"
    unfolding VV by linarith
  from sq_lo sq_hi obtain p where p: "rnd (v * v) = Fin p" and err: "\<bar>p - v * v\<bar> \<le> v * v * u"
    unfolding u_def by (rule rnd_rel)
  have vu_hi: "v * u \<le> ulp - ulp * u"
  proof -
    have "v * u \<le> (V - ulp) * u"
      using vhi u by (simp add: mult_right_mono)
    then show ?thesis
      by (simp add: left_diff_distrib Vu)
  qed
  have vu_lo: "w \<le> v * u"
    using vlo u Bu by (metis mult_right_mono less_imp_le)
  have up: "p < (v + w) * (v + w)"
  proof -
    have "v * (v * u) \<le> v * (ulp - ulp * u)"
      using vu_hi vpos by (simp add: mult_left_mono)
    also have "\<dots> < v * ulp"
      using vpos ulp u by simp
    finally have "v * v * u < 2 * v * w"
      unfolding ulp_w by (simp add: mult.assoc)
    moreover have "(v + w) * (v + w) = v * v + 2 * v * w + w * w"
      by (simp add: algebra_simps)
    moreover have "0 < w * w"
      using w by simp
    ultimately show ?thesis
      using err by linarith
  qed
  have low: "(v - w) * (v - w) < p"
  proof -
    have "v * (v * u) \<le> v * (ulp - ulp * u)"
      using vu_hi vpos by (simp add: mult_left_mono)
    also have "\<dots> = 2 * v * w - ulp * (v * u)"
      unfolding ulp_w by (simp add: algebra_simps)
    finally have a: "v * v * u \<le> 2 * v * w - ulp * (v * u)"
      by (simp add: mult.assoc)
    have "ulp * w \<le> ulp * (v * u)"
      using vu_lo ulp by (simp add: mult_left_mono)
    moreover have "ulp * w = 2 * (w * w)"
      unfolding ulp_w by simp
    moreover have "0 < w * w"
      using w by simp
    ultimately have "w * w < ulp * (v * u)"
      by linarith
    moreover have "(v - w) * (v - w) = v * v - 2 * v * w + w * w"
      by (simp add: algebra_simps)
    ultimately show ?thesis
      using err a by linarith
  qed
  have wB: "w < B"
    unfolding w_def B_def by (rule pw_strict_mono) simp
  with vlo have vw: "0 < v - w"
    by linarith
  then have "0 \<le> (v - w) * (v - w)"
    by simp
  with low have ppos: "0 \<le> p"
    by linarith
  define q where "q = sqrt p"
  have "sqrt ((v - w) * (v - w)) < sqrt p"
    using low by (simp only: real_sqrt_less_iff)
  then have q_lo: "v - w < q"
    using vw unfolding q_def by simp
  have "sqrt p < sqrt ((v + w) * (v + w))"
    using up by (simp only: real_sqrt_less_iff)
  then have q_hi: "q < v + w"
    using vpos w unfolding q_def by simp
  have exact: "rnd v = Fin v"
    using v _ _ _
  proof (rule rnd_exact)
    show "\<bar>M\<bar> < 2 ^ 53"
      using M by simp
    show "- 1074 \<le> E - 52" "E - 52 \<le> 971"
      using E by simp_all
  qed
  have qB: "B \<le> q"
  proof (cases "M = 2 ^ 52")
    case True
    then have vB: "v = B"
      unfolding v B_def using pw_52 [of E] by simp
    have "rnd (v * v) = Fin (v * v)"
    proof (rule rnd_exact)
      show "v * v = real_of_int (2 ^ 52) * 2 powi (E + E - 52)"
        unfolding vB BB pw_52 ..
      show "\<bar>2 ^ 52 :: int\<bar> < 2 ^ 53"
        by simp
      show "- 1074 \<le> E + E - 52" "E + E - 52 \<le> 971"
        using E by simp_all
    qed
    with p have "p = v * v"
      by simp
    then have "q = v"
      unfolding q_def using vpos by simp
    with vB show ?thesis
      by simp
  next
    case False
    with M(1) have "2 ^ 52 + 1 \<le> M"
      by simp
    then have "real_of_int (2 ^ 52 + 1) \<le> of_int M"
      by (simp only: of_int_le_iff)
    then have "real_of_int (2 ^ 52 + 1) * ulp \<le> of_int M * ulp"
      using ulp by (intro mult_right_mono) simp_all
    moreover have "real_of_int (2 ^ 52 + 1) * ulp = real_of_int (2 ^ 52) * ulp + ulp"
      by (simp add: distrib_right)
    moreover have "real_of_int (2 ^ 52) * ulp = B"
      unfolding ulp_def B_def by (rule pw_52)
    moreover have "v = of_int M * ulp"
      unfolding v ulp_def ..
    ultimately have "B + ulp \<le> v"
      by linarith
    with q_lo ulp_w w show ?thesis
      by linarith
  qed
  have qV: "q < V"
    using q_hi vhi ulp_w w by linarith
  have "- 1022 \<le> E"
    using E by simp
  note n = rnd_normal [OF qB [unfolded B_def] qV [unfolded V_def] this]
  have "q / ulp - of_int M = (q - v) / ulp"
    unfolding v ulp_def using pw_pos [of "E - 52"] by (simp add: diff_divide_distrib)
  moreover have "\<bar>q - v\<bar> < w"
    using q_lo q_hi by linarith
  then have "\<bar>q - v\<bar> / ulp < w / ulp"
    using ulp by (simp add: divide_strict_right_mono)
  moreover have "w / ulp = 1 / 2"
    unfolding ulp_w using w by simp
  ultimately have "\<bar>q / ulp - of_int M\<bar> < 1 / 2"
    using ulp by (simp add: abs_divide)
  then have k: "round_even (q / 2 powi (E - 52)) = M"
    unfolding ulp_def by (rule round_even_unique)
  have "V \<le> 2 powi 511"
    unfolding V_def using E by (intro pw_mono) simp
  also have "(2::real) powi 511 < 2 powi 1024"
    by (intro pw_strict_mono) simp
  finally have "v < 2 ^ 1024"
    using \<open>v < V\<close> by simp
  then have "rnd q = Fin v"
    unfolding n(1) k v [symmetric] by simp
  with p ppos show ?thesis
    unfolding q_def by (rule that)
qed

section \<open>Properties of the correlation matrix\<close>

lemma nancorr_entry:
  "a < length mat \<Longrightarrow> b < length mat \<Longrightarrow>
   nancorr mat ! a ! b = nancorr_pair (mat ! max a b) (mat ! min a b)"
  by (simp add: nancorr_def)

lemma nancorr_row: "a < length mat \<Longrightarrow> length (nancorr mat ! a) = length mat"
  by (simp add: nancorr_def)

lemma length_to_numpy: "length (to_numpy fd) = 4"
  by (simp add: to_numpy_def numeric_cols_def)

lemma same_passD:
  assumes "same_pass w"
  shows "meany w = meanx w" and "ssqdmy w = ssqdmx w" and "covxy w = ssqdmx w"
  using assms unfolding same_pass_def by auto

lemma same_step:
  assumes "same_pass w"
  shows "same_pass (welford_step w (x, x))"
  unfolding same_pass_def welford_step_def Let_def
  by (simp add: same_passD [OF assms])

lemma same_foldl:
  "same_pass w \<Longrightarrow> same_pass (foldl welford_step w (map (\<lambda>x. (x, x)) xs))"
  by (induction xs arbitrary: w) (simp_all add: same_step)

lemma zip_same_filter:
  "filter (\<lambda>v. isfinite (fst v) \<and> isfinite (snd v)) (zip xs xs)
     = map (\<lambda>x. (x, x)) (filter isfinite xs)"
  by (induction xs) auto

lemma same_welford_pass: "same_pass (welford_pass xs xs)"
  unfolding welford_pass_def zip_same_filter
  by (rule same_foldl) (simp add: same_pass_def welford_init_def)

lemma nobs_step: "nobs (welford_step w v) = nobs w + 1"
  by (simp add: welford_step_def Let_def)

lemma nobs_foldl: "nobs (foldl welford_step w ps) = nobs w + length ps"
  by (induction ps arbitrary: w) (simp_all add: nobs_step)

lemma fadd_Fin: "fadd a b = Fin s \<Longrightarrow> \<exists>x. rnd x = Fin s"
  by (cases a; cases b) auto

lemma ssqdmx_step_rounded: "ssqdmx (welford_step w v) = Fin s \<Longrightarrow> \<exists>x. rnd x = Fin s"
  by (auto simp: welford_step_def Let_def dest: fadd_Fin)

lemma ssqdmx_foldl_rounded:
  assumes "ps \<noteq> []" and "ssqdmx (foldl welford_step w ps) = Fin s"
  shows "\<exists>x. rnd x = Fin s"
proof -
  from assms(1) have "ps = butlast ps @ [last ps]"
    by simp
  then have "foldl welford_step w ps
      = welford_step (foldl welford_step w (butlast ps)) (last ps)"
    by (metis foldl_Cons foldl_Nil foldl_append)
  with assms(2) show ?thesis
    by (simp add: ssqdmx_step_rounded)
qed

lemma rnd_one: "rnd 1 = Fin 1"
  using rnd_exact [of 1 1 0] by simp

lemma nancorr_pair_diagonal:
  assumes s: "ssqdmx (welford_pass c c) = Fin s"
    and lo: "2 powi (- 511) \<le> s" and hi: "s < 2 powi 511"
  shows "nancorr_pair c c = Some 1"
proof -
  define w where "w = welford_pass c c"
  let ?ps = "filter (\<lambda>v. isfinite (fst v) \<and> isfinite (snd v)) (zip c c)"
  from lo pw_pos [of "- 511"] have spos: "0 < s"
    by linarith
  have ne: "?ps \<noteq> []"
  proof
    assume "?ps = []"
    then have "ssqdmx (welford_pass c c) = Fin 0"
      by (simp add: welford_pass_def welford_init_def)
    with s spos show False
      by simp
  qed
  then have n: "\<not> nobs w < 1"
    unfolding w_def welford_pass_def nobs_foldl by (cases ?ps) simp_all
  have sx: "ssqdmx w = Fin s"
    unfolding w_def by (rule s)
  have sy: "ssqdmy w = Fin s" and sc: "covxy w = Fin s"
    unfolding w_def same_passD [OF same_welford_pass] by (rule s)+
  from ne s obtain x where "rnd x = Fin s"
    unfolding welford_pass_def by (blast dest: ssqdmx_foldl_rounded)
  then obtain M E where v: "s = of_int M * 2 powi (E - 52)"
    and M: "2 ^ 52 \<le> M" "M < 2 ^ 53"
    using lo by (rule rnd_Fin_normalised)
  have "real_of_int (2 ^ 52) \<le> of_int M"
    using M(1) by (simp only: of_int_le_iff)
  then have "real_of_int (2 ^ 52) * 2 powi (E - 52) \<le> s"
    unfolding v using pw_pos [of "E - 52"] by (intro mult_right_mono) simp_all
  then have "(2::real) powi E < 2 powi 511"
    unfolding pw_52 using hi by linarith
  then have E2: "E \<le> 510"
    using pw_less_cancel [of E 511] by simp
  have "real_of_int M < of_int (2 ^ 53)"
    using M(2) by (simp only: of_int_less_iff)
  then have "s < real_of_int (2 ^ 53) * 2 powi (E - 52)"
    unfolding v using pw_pos [of "E - 52"] by (intro mult_strict_right_mono) simp_all
  then have "(2::real) powi (- 511) < 2 powi (E + 1)"
    unfolding pw_53 using lo by linarith
  then have E1: "- 511 \<le> E"
    using pw_less_cancel [of "- 511" "E + 1"] by simp
  from v M E1 E2 obtain p where p: "rnd (s * s) = Fin p" and p0: "0 \<le> p"
    and q: "rnd (sqrt p) = Fin s"
    by (rule sqrt_square_exact)
  have d: "fsqrt (fmul (ssqdmx w) (ssqdmy w)) = Fin s"
    unfolding sx sy using p p0 q by simp
  have "fdiv (covxy w) (Fin s) = Fin 1"
    unfolding sc using spos by (simp add: rnd_one)
  then show ?thesis
    unfolding nancorr_pair_def w_def [symmetric] Let_def d
    using n spos by (simp add: clip_def)
qed

lemma corr_matrix_entry:
  "a < 4 \<Longrightarrow> b < 4 \<Longrightarrow>
   corr_matrix fd ! a ! b = nancorr_pair (to_numpy fd ! max a b) (to_numpy fd ! min a b)"
  unfolding corr_matrix_def by (simp add: nancorr_entry length_to_numpy)

lemma rnd_zero: "rnd 0 = Fin 0"
  by (simp add: rnd_def)

lemma rnd_two: "rnd 2 = Fin 2"
  using rnd_exact [of 2 2 0] by simp

lemma rnd_half: "rnd (1 / 2) = Fin (1 / 2)"
  using rnd_exact [of "1 / 2" 1 "- 1"] by simp

lemma rnd_huge: "rnd huge = Fin huge"
  using rnd_exact [of huge 1 600] by (simp add: huge_def)

lemma rnd_half_huge: "rnd (huge / 2) = Fin (huge / 2)"
  using rnd_exact [of "huge / 2" 1 599] by (simp add: huge_def)

lemma rnd_huge_square: "rnd (huge * huge / 2) = PInf"
  by (rule rnd_overflow) (simp add: huge_def)

lemma huge_minus_half: "huge - huge / 2 = huge / 2"
  by simp

lemma huge_bmi_column: "to_numpy huge_df ! 2 = [Fin 0, Fin huge]"
  by (simp add: to_numpy_def numeric_cols_def huge_df_def rnd_zero rnd_huge)

lemma huge_pass:
  "ssqdmx (welford_pass [Fin 0, Fin huge] [Fin 0, Fin huge]) = PInf"
  "ssqdmy (welford_pass [Fin 0, Fin huge] [Fin 0, Fin huge]) = PInf"
  "covxy (welford_pass [Fin 0, Fin huge] [Fin 0, Fin huge]) = PInf"
  "nobs (welford_pass [Fin 0, Fin huge] [Fin 0, Fin huge]) = 2"
  by (simp_all add: welford_pass_def welford_step_def welford_init_def Let_def fsub_def
      rnd_zero rnd_one rnd_two rnd_half rnd_huge rnd_half_huge rnd_huge_square)

lemma huge_diagonal: "corr_matrix huge_df ! 2 ! 2 = None"
  by (simp add: corr_matrix_entry huge_bmi_column nancorr_pair_def Let_def huge_pass clip_def)

lemma rnd_small:
  "rnd 5 = Fin 5" "rnd 6 = Fin 6" "rnd (- 1) = Fin (- 1)"
  "rnd (- (1 / 2)) = Fin (- (1 / 2))" "rnd (11 / 2) = Fin (11 / 2)"
  using rnd_exact [of 5 5 0] rnd_exact [of 6 6 0] rnd_exact [of "- 1" "- 1" 0]
    rnd_exact [of "- (1 / 2)" "- 1" "- 1"] rnd_exact [of "11 / 2" 11 "- 1"]
  by simp_all

lemma pair_HbA1c_column: "to_numpy pair_df ! 0 = [Fin 6, Fin 5]"
  by (simp add: to_numpy_def numeric_cols_def pair_df_def patient1_def patient2_def rnd_small)

lemma pair_pass: "ssqdmx (welford_pass [Fin 6, Fin 5] [Fin 6, Fin 5]) = Fin (1 / 2)"
  by (simp add: welford_pass_def welford_step_def welford_init_def Let_def fsub_def
      rnd_zero rnd_one rnd_two rnd_half rnd_small)

lemma non_constant_first_two: "x \<noteq> y \<Longrightarrow> non_constant (x # y # xs)"
  by (auto simp: non_constant_def)

lemma huge_df_non_constant:
  "non_constant (map HbA1c_level huge_df)"
  "non_constant (map blood_glucose_level huge_df)"
  "non_constant (map bmi huge_df)"
  "non_constant (map age huge_df)"
  by (simp_all add: non_constant_first_two huge_df_def patient1_def patient2_def huge_def)

text \<open>
  Claim C6 as it is stated fails on float64. In the table \<open>huge_df\<close> no numeric column
  is constant; its \<open>bmi\<close> cells are 0 and \<open>2 ^ 600\<close>. In the pass over that column the
  running mean becomes \<open>2 ^ 599\<close>, the product \<open>2 ^ 599 * 2 ^ 600\<close> overflows, the sums
  of squares are infinite, the divisor is infinite, and infinity divided by infinity is
  \<^verbatim>\<open>NaN\<close>: the diagonal entry of \<open>bmi\<close> is \<^verbatim>\<open>NaN\<close>, not 1.
\<close>

theorem corr_matrix_unit_diagonal_counterexample:
  "huge_df \<noteq> [] \<and>
   non_constant (map HbA1c_level huge_df) \<and>
   non_constant (map blood_glucose_level huge_df) \<and>
   non_constant (map bmi huge_df) \<and>
   non_constant (map age huge_df) \<and>
   map bmi huge_df = [0, 2 ^ 600] \<and>
   corr_matrix huge_df ! 2 ! 2 = None \<and>
   corr_matrix huge_df ! 2 ! 2 \<noteq> Some 1"
  by (simp add: huge_df_non_constant huge_diagonal) (simp add: huge_df_def huge_def)

text \<open>
  Claim C6, amended. For every filtered frame the correlation matrix is a 4 by 4 matrix
  and symmetric: the entry at (i, j) is the entry at (j, i), an undefined entry facing an
  undefined one. The diagonal entry of a numeric column is 1 whenever the sum of squared
  deviations \<open>s\<close> that the pass accumulates for that column in float64 is a finite number
  with \<open>2 ^ -511 \<le> s < 2 ^ 511\<close>, so that \<open>s * s\<close> neither overflows nor
  underflows: then the square root of the rounded square is \<open>s\<close> again and the quotient
  is 1.
\<close>

theorem corr_matrix_symmetric_diagonal:
  "length (corr_matrix fd) = 4 \<and>
   (\<forall>i < 4. length (corr_matrix fd ! i) = 4) \<and>
   (\<forall>i < 4. \<forall>j < 4. corr_matrix fd ! i ! j = corr_matrix fd ! j ! i) \<and>
   (\<forall>i < 4. \<forall>s.
      ssqdmx (welford_pass (to_numpy fd ! i) (to_numpy fd ! i)) = Fin s \<and>
      2 powi (- 511) \<le> s \<and> s < 2 powi 511 \<longrightarrow>
      corr_matrix fd ! i ! i = Some 1)"
proof (intro conjI allI impI)
  show "length (corr_matrix fd) = 4"
    by (simp add: corr_matrix_def nancorr_def length_to_numpy)
next
  fix i :: nat assume "i < 4"
  then show "length (corr_matrix fd ! i) = 4"
    unfolding corr_matrix_def by (simp add: nancorr_row length_to_numpy)
next
  fix i j :: nat assume "i < 4" "j < 4"
  then show "corr_matrix fd ! i ! j = corr_matrix fd ! j ! i"
    by (simp add: corr_matrix_entry max.commute min.commute)
next
  fix i :: nat and s :: real
  assume i: "i < 4"
    and "ssqdmx (welford_pass (to_numpy fd ! i) (to_numpy fd ! i)) = Fin s \<and>
      2 powi (- 511) \<le> s \<and> s < 2 powi 511"
  then have "nancorr_pair (to_numpy fd ! i) (to_numpy fd ! i) = Some 1"
    by (intro nancorr_pair_diagonal [of _ s]) simp_all
  with i show "corr_matrix fd ! i ! i = Some 1"
    by (simp add: corr_matrix_entry)
qed

theorem corr_matrix_symmetric_diagonal_witness:
  "ssqdmx (welford_pass (to_numpy pair_df ! 0) (to_numpy pair_df ! 0)) = Fin (1 / 2) \<and>
   (2::real) powi (- 511) \<le> 1 / 2 \<and> (1 / 2 :: real) < 2 powi 511 \<and>
   corr_matrix pair_df ! 0 ! 0 = Some 1 \<and>
   corr_matrix pair_df ! 0 ! 2 = corr_matrix pair_df ! 2 ! 0 \<and>
   length (corr_matrix pair_df) = 4"
proof -
  have s: "ssqdmx (welford_pass (to_numpy pair_df ! 0) (to_numpy pair_df ! 0)) = Fin (1 / 2)"
    unfolding pair_HbA1c_column by (rule pair_pass)
  have lo: "(2::real) powi (- 511) \<le> 1 / 2"
    using pw_mono [of "- 511" "- 1"] by simp
  have hi: "(1 / 2 :: real) < 2 powi 511"
    using pw_strict_mono [of "- 1" 511] by simp
  note t = corr_matrix_symmetric_diagonal [of pair_df]
  from t s lo hi have "corr_matrix pair_df ! 0 ! 0 = Some 1"
    by (metis zero_less_numeral)
  moreover from t have "corr_matrix pair_df ! 0 ! 2 = corr_matrix pair_df ! 2 ! 0"
    by simp
  moreover from t have "length (corr_matrix pair_df) = 4"
    by simp
  ultimately show ?thesis
    using s lo hi by simp
qed

section \<open>The empty filtered frame\<close>

lemma groupby_mean_Nil: "groupby_mean key col [] = []"
  by (simp add: groupby_mean_def)

lemma nancorr_pair_Nil: "nancorr_pair [] [] = None"
  by (simp add: nancorr_pair_def welford_pass_def welford_init_def)

lemma corr_matrix_Nil:
  "corr_matrix [] =
     [[None, None, None, None], [None, None, None, None],
      [None, None, None, None], [None, None, None, None]]"
  by (simp add: corr_matrix_def to_numpy_def nancorr_def numeric_cols_def nancorr_pair_Nil
      upt_rec)

lemma assign_comorbidity_Nil:
  "assign_comorbidity \<lparr>g_df = df, g_filtered_df = []\<rparr> = Inr \<lparr>g_df = df, g_filtered_df = []\<rparr>"
  by (simp add: assign_comorbidity_def np_select_def conditions_def choices_def
      series_and_def series_eq_def setitem_comorbidity_def)

text \<open>
  Claim C5. When the filtered frame is empty (as it is when the gender selection is empty,
  whatever the table), the script runs through without raising: every group mean table
  is empty, the frames handed to the box and violin plots are empty, and the
  correlation matrix is the 4 by 4 matrix of undefined (\<^verbatim>\<open>NaN\<close>) entries.
\<close>

theorem app_empty_filtered:
  "filtered_df df sel = [] \<Longrightarrow>
   app df sel =
     Inr (\<lparr>g_df = df, g_filtered_df = []\<rparr>,
          \<lparr>fig1 = [], fig2 = [], fig3 = [], fig4 = [], fig5 = [], fig6 = [], fig7 = [],
           fig8 = [],
           fig9 = [[None, None, None, None], [None, None, None, None],
                   [None, None, None, None], [None, None, None, None]],
           fig10 = []\<rparr>)"
  by (simp add: app_def assign_comorbidity_Nil age_group_chart_def gender_chart_def
      smoke_chart_def comorb_chart_def heatmap_data_def heatmap_df_def groupby_mean_Nil
      corr_matrix_Nil)

theorem app_empty_filtered_witness:
  "sample_df \<noteq> [] \<and> gender_filter select_no_gender = [] \<and>
   filtered_df sample_df select_no_gender = [] \<and>
   app sample_df select_no_gender =
     Inr (\<lparr>g_df = sample_df, g_filtered_df = []\<rparr>,
          \<lparr>fig1 = [], fig2 = [], fig3 = [], fig4 = [], fig5 = [], fig6 = [], fig7 = [],
           fig8 = [],
           fig9 = [[None, None, None, None], [None, None, None, None],
                   [None, None, None, None], [None, None, None, None]],
           fig10 = []\<rparr>)"
  using app_empty_filtered [OF sample_df_no_gender] sample_df_no_gender
  by (simp add: sample_df_def select_no_gender_def)

end
